theory Spec2Isabelle
  imports Complex_Main
begin

section \<open>Data model\<close>

subsection \<open>Receipts (transaction.py)\<close>

text \<open>
  A \<open>datetime\<close> is kept abstract as a number: only its presence matters below.
  \<open>TransactionReceipt\<close> is the dataclass of transaction.py with its declared field types.
\<close>

type_synonym datetime = int

record TransactionReceipt =
  tx_id :: string
  tx_hash :: string
  success :: bool
  block_height :: "int option"
  block_hash :: "string option"
  timestamp :: "datetime option"
  error :: "string option"

text \<open>
  Python truthiness of an \<open>Optional[str]\<close>, as tested by \<open>cached.error\<close> and
  \<open>receipt.error\<close>: \<open>None\<close> and the empty string are false.
\<close>

definition truthy :: "string option \<Rightarrow> bool" where
  "truthy e = (case e of None \<Rightarrow> False | Some s \<Rightarrow> s \<noteq> [])"

subsection \<open>Time and the network\<close>

text \<open>
  The waits read a clock and talk to a ledger; both are made explicit. The clock is read
  in whole milliseconds. A gateway is the script of the network: its \<open>i\<close>-th entry says
  how long the \<open>i\<close>-th request takes and what it yields. Awaiting a request advances
  the clock by its duration and counts the request; \<open>asyncio.sleep(s)\<close> advances the
  clock by \<open>1000 * s\<close>. The clock never runs backwards.
\<close>

record 'r poll =
  took :: nat
  reply :: 'r

type_synonym 'r gateway = "nat \<Rightarrow> 'r poll"

record world =
  clock :: int
  requests :: nat

definition await_request :: "'r gateway \<Rightarrow> 'a world_scheme \<Rightarrow> 'a world_scheme" where
  "await_request gw w = w\<lparr>clock := clock w + int (took (gw (requests w))),
                          requests := Suc (requests w)\<rparr>"

definition sleep :: "int \<Rightarrow> 'a world_scheme \<Rightarrow> 'a world_scheme" where
  "sleep ms w = w\<lparr>clock := clock w + ms\<rparr>"

text \<open>
  The clock reading at which the \<open>k\<close>-th poll of a loop begins, when the loop starts at
  clock \<open>t\<close> with request number \<open>n\<close> and sleeps \<open>interval\<close> after every poll.
\<close>

fun poll_clock :: "'r gateway \<Rightarrow> int \<Rightarrow> nat \<Rightarrow> int \<Rightarrow> nat \<Rightarrow> int" where
  "poll_clock gw interval n t 0 = t"
| "poll_clock gw interval n t (Suc k) =
     poll_clock gw interval (Suc n) (t + int (took (gw n)) + interval) k"

text \<open>
  Exceptions that a fetch meets. \<open>ClientError\<close> stands for whatever \<open>session.post\<close>
  or \<open>response.json()\<close> raises.
\<close>

datatype py_exception = KeyError | ValueError | TypeError | ClientError

text \<open>
  How a wait ends when it does not return. The first three are the exceptions the waits
  raise themselves, with the value their message is built from:
  \<open>Exception("Transaction failed: {receipt.error}")\<close>,
  \<open>RuntimeError("... failed with status: {tx.status}")\<close> and \<open>TimeoutError\<close>.
  \<open>Uncaught\<close> is an exception of the fetch that nothing catches.
\<close>

datatype wait_error =
    TransactionFailed string
  | AtomicFailure string
  | Timeout
  | Uncaught py_exception

section \<open>The generic JSON-RPC client (client.py)\<close>

record BlockchainConfig =
  rpc_url :: string
  ws_url :: "string option"
  confirmation_blocks :: int
  confirmation_timeout :: int
  max_retries :: int

text \<open>
  The \<open>result\<close> object of an \<open>eth_getTransactionReceipt\<close> response. A key that is
  absent is \<open>None\<close>; the \<open>timestamp\<close> key is absent, an ISO-8601 string, or a string
  that \<open>datetime.fromisoformat\<close> rejects.
\<close>

datatype iso_field = NoTimestamp | Iso datetime | NotIso

record rpc_result =
  j_tx_id :: "string option"
  j_tx_hash :: "string option"
  j_success :: "bool option"
  j_block_height :: "int option"
  j_block_hash :: "string option"
  j_timestamp :: iso_field
  j_error :: "string option"

text \<open>
  What one \<open>session.post\<close> yields: an exception (connection failure, a body that is not
  JSON, ...) or a response with its status and, if the body has a truthy \<open>result\<close>, that
  object.
\<close>

datatype rpc_reply = PostRaised | RpcResponse nat "rpc_result option"

text \<open>The constructor call of \<open>get_transaction_receipt\<close>, argument by argument.\<close>

definition receipt_of_result :: "rpc_result \<Rightarrow> py_exception + TransactionReceipt" where
  "receipt_of_result j =
     (case j_tx_id j of None \<Rightarrow> Inl KeyError | Some i \<Rightarrow>
     (case j_tx_hash j of None \<Rightarrow> Inl KeyError | Some h \<Rightarrow>
     (case j_success j of None \<Rightarrow> Inl KeyError | Some s \<Rightarrow>
     (case j_timestamp j of
        NotIso \<Rightarrow> Inl ValueError
      | NoTimestamp \<Rightarrow>
          Inr \<lparr>tx_id = i, tx_hash = h, success = s, block_height = j_block_height j,
               block_hash = j_block_hash j, timestamp = None, error = j_error j\<rparr>
      | Iso d \<Rightarrow>
          Inr \<lparr>tx_id = i, tx_hash = h, success = s, block_height = j_block_height j,
               block_hash = j_block_hash j, timestamp = Some d, error = j_error j\<rparr>))))"

text \<open>The body of the \<open>try\<close> block of \<open>get_transaction_receipt\<close>.\<close>

definition post_receipt :: "rpc_reply \<Rightarrow> py_exception + TransactionReceipt option" where
  "post_receipt r =
     (case r of
        PostRaised \<Rightarrow> Inl ClientError
      | RpcResponse status body \<Rightarrow>
          if status \<noteq> 200 then Inr None
          else (case body of
                  None \<Rightarrow> Inr None
                | Some j \<Rightarrow> (case receipt_of_result j of
                               Inl e \<Rightarrow> Inl e
                             | Inr rc \<Rightarrow> Inr (Some rc))))"

text \<open>\<open>get_transaction_receipt\<close>: \<open>except Exception: return None\<close>.\<close>

definition get_transaction_receipt :: "rpc_reply \<Rightarrow> py_exception + TransactionReceipt option" where
  "get_transaction_receipt r =
     (case post_receipt r of Inl e \<Rightarrow> Inr None | Inr v \<Rightarrow> Inr v)"

record client = world +
  transaction_cache :: "string \<rightharpoonup> TransactionReceipt"

text \<open>
  The \<open>while\<close> loop of \<open>wait_for_confirmation\<close>, entered with
  \<open>deadline = now + confirmation_timeout\<close>. A receipt object is always truthy, so
  \<open>if receipt\<close> asks whether there is one. The receipt fetch never raises (see
  \<open>get_transaction_receipt\<close>), so its \<open>Inl\<close> case is the same as no receipt.
\<close>

function wait_loop ::
  "rpc_reply gateway \<Rightarrow> int \<Rightarrow> string \<Rightarrow> client \<Rightarrow> (wait_error + TransactionReceipt) \<times> client"
where
  "wait_loop gw deadline txid c =
     (if clock c < deadline then
        (let c1 = await_request gw c in
         case get_transaction_receipt (reply (gw (requests c))) of
           Inr (Some receipt) \<Rightarrow>
             (let c2 = c1\<lparr>transaction_cache := (transaction_cache c1)(txid \<mapsto> receipt)\<rparr> in
              if success receipt then (Inr receipt, c2)
              else if truthy (error receipt)
                then (Inl (TransactionFailed (the (error receipt))), c2)
              else wait_loop gw deadline txid (sleep 2000 c2))
         | _ \<Rightarrow> wait_loop gw deadline txid (sleep 2000 c1))
      else (Inl Timeout, c))"
  by pat_completeness auto
termination
  by (relation "measure (\<lambda>(gw, deadline, txid, c). nat (deadline - clock c))")
     (auto simp: await_request_def sleep_def)

declare wait_loop.simps [simp del]

text \<open>\<open>wait_for_confirmation\<close>: the cache is consulted first, then the loop runs.\<close>

definition wait_for_confirmation ::
  "BlockchainConfig \<Rightarrow> rpc_reply gateway \<Rightarrow> string \<Rightarrow> client
     \<Rightarrow> (wait_error + TransactionReceipt) \<times> client"
where
  "wait_for_confirmation cfg gw txid c =
     (let loop = wait_loop gw (clock c + 1000 * confirmation_timeout cfg) txid c in
      case transaction_cache c txid of
        Some cached \<Rightarrow> if success cached \<or> truthy (error cached) then (Inr cached, c) else loop
      | None \<Rightarrow> loop)"

subsection \<open>Receipts as the ledger sends them\<close>

text \<open>
  The dataclass does not check the types of its fields, and \<open>get_transaction_receipt\<close>
  copies the members of the \<open>result\<close> object as they come. The definitions above read
  a ledger whose members have the declared types; the ones below read any JSON. A member
  fetched with \<open>result.get\<close> is \<open>None\<close> (here \<open>JNull\<close>) when it is absent.
\<close>

datatype json =
    JNull
  | JBool bool
  | JNumber int
  | JString string
  | JArray "json list"
  | JObject "(string \<times> json) list"

record json_result =
  m_tx_id :: "json option"
  m_tx_hash :: "json option"
  m_success :: "json option"
  m_block_height :: "json option"
  m_block_hash :: "json option"
  m_timestamp :: iso_field
  m_error :: "json option"

datatype json_reply = JsonRaised | JsonResponse nat "json_result option"

record receipt_object =
  o_tx_id :: json
  o_tx_hash :: json
  o_success :: json
  o_block_height :: json
  o_block_hash :: json
  o_timestamp :: "datetime option"
  o_error :: json

definition dict_get :: "json option \<Rightarrow> json" where
  "dict_get m = (case m of None \<Rightarrow> JNull | Some v \<Rightarrow> v)"

definition receipt_object_of_result :: "json_result \<Rightarrow> py_exception + receipt_object" where
  "receipt_object_of_result j =
     (case m_tx_id j of None \<Rightarrow> Inl KeyError | Some i \<Rightarrow>
     (case m_tx_hash j of None \<Rightarrow> Inl KeyError | Some h \<Rightarrow>
     (case m_success j of None \<Rightarrow> Inl KeyError | Some s \<Rightarrow>
     (case m_timestamp j of
        NotIso \<Rightarrow> Inl ValueError
      | NoTimestamp \<Rightarrow>
          Inr \<lparr>o_tx_id = i, o_tx_hash = h, o_success = s,
               o_block_height = dict_get (m_block_height j),
               o_block_hash = dict_get (m_block_hash j), o_timestamp = None,
               o_error = dict_get (m_error j)\<rparr>
      | Iso d \<Rightarrow>
          Inr \<lparr>o_tx_id = i, o_tx_hash = h, o_success = s,
               o_block_height = dict_get (m_block_height j),
               o_block_hash = dict_get (m_block_hash j), o_timestamp = Some d,
               o_error = dict_get (m_error j)\<rparr>))))"

definition post_receipt_any :: "json_reply \<Rightarrow> py_exception + receipt_object option" where
  "post_receipt_any r =
     (case r of
        JsonRaised \<Rightarrow> Inl ClientError
      | JsonResponse status body \<Rightarrow>
          if status \<noteq> 200 then Inr None
          else (case body of
                  None \<Rightarrow> Inr None
                | Some j \<Rightarrow> (case receipt_object_of_result j of
                               Inl e \<Rightarrow> Inl e
                             | Inr rc \<Rightarrow> Inr (Some rc))))"

definition get_transaction_receipt_any ::
  "json_reply \<Rightarrow> py_exception + receipt_object option" where
  "get_transaction_receipt_any r =
     (case post_receipt_any r of Inl e \<Rightarrow> Inr None | Inr v \<Rightarrow> Inr v)"

text \<open>
  \<open>is_transaction_confirmed\<close>: \<open>receipt.success if receipt else False\<close>, and \<open>False\<close>
  on any exception. What it returns is the \<open>success\<close> field itself.
\<close>

definition is_transaction_confirmed :: "json_reply \<Rightarrow> py_exception + json" where
  "is_transaction_confirmed r =
     (case get_transaction_receipt_any r of
        Inl e \<Rightarrow> Inr (JBool False)
      | Inr None \<Rightarrow> Inr (JBool False)
      | Inr (Some rc) \<Rightarrow> Inr (o_success rc))"

text \<open>A typed result, reply and receipt, written as the JSON they are.\<close>

definition json_of_result :: "rpc_result \<Rightarrow> json_result" where
  "json_of_result j =
     \<lparr>m_tx_id = map_option JString (j_tx_id j), m_tx_hash = map_option JString (j_tx_hash j),
      m_success = map_option JBool (j_success j),
      m_block_height = map_option JNumber (j_block_height j),
      m_block_hash = map_option JString (j_block_hash j), m_timestamp = j_timestamp j,
      m_error = map_option JString (j_error j)\<rparr>"

definition json_of_reply :: "rpc_reply \<Rightarrow> json_reply" where
  "json_of_reply r =
     (case r of
        PostRaised \<Rightarrow> JsonRaised
      | RpcResponse status body \<Rightarrow> JsonResponse status (map_option json_of_result body))"

definition object_of_receipt :: "TransactionReceipt \<Rightarrow> receipt_object" where
  "object_of_receipt rc =
     \<lparr>o_tx_id = JString (tx_id rc), o_tx_hash = JString (tx_hash rc),
      o_success = JBool (success rc),
      o_block_height = dict_get (map_option JNumber (block_height rc)),
      o_block_hash = dict_get (map_option JString (block_hash rc)),
      o_timestamp = timestamp rc,
      o_error = dict_get (map_option JString (error rc))\<rparr>"

section \<open>The chain clients and the bridge\<close>

text \<open>
  The three REST clients hold \<open>httpx.Client()\<close>, the synchronous client, and fetch with
  \<open>response = await self.client.get(url)\<close>. The call sends the request; with no response
  it raises \<open>httpx.HTTPError\<close>, which the fetch catches. With a response it returns
  the response object, which is not awaitable: \<open>await\<close> raises \<open>TypeError\<close>, which
  \<open>except httpx.HTTPError\<close> does not catch. The lines after the \<open>await\<close> are kept as
  they are written: the 404 test, \<open>raise_for_status\<close> (an \<open>HTTPError\<close> for every
  status outside \<open>2xx\<close>), \<open>response.json()\<close> (a \<open>ValueError\<close> on a body that is not
  JSON) and the dataclass constructor (a \<open>TypeError\<close> on an object with other keys).
\<close>

datatype 'a body = NotJson | Misfit | Record 'a

datatype 'a rest_reply = HTTPError | RestResponse nat "'a body"

definition await_response :: "'r \<Rightarrow> py_exception + 'r" where
  "await_response response = Inl TypeError"

definition raise_for_status :: "nat \<Rightarrow> bool" where
  "raise_for_status status_code = (\<not> (200 \<le> status_code \<and> status_code < 300))"

subsection \<open>Chat chain (chat_chain.py)\<close>

record ChatChainTransaction =
  cc_id :: string
  cc_tx_type :: string
  cc_sender :: string
  cc_data :: "(string \<times> string) list"
  cc_status :: string
  cc_confirmations :: int
  cc_block_height :: int
  cc_created_at :: int

definition chat_get_transaction ::
  "ChatChainTransaction rest_reply \<Rightarrow> py_exception + ChatChainTransaction option" where
  "chat_get_transaction r =
     (case r of
        HTTPError \<Rightarrow> Inr None
      | RestResponse status_code data \<Rightarrow>
          (case await_response (status_code, data) of
             Inl e \<Rightarrow> Inl e
           | Inr (code, content) \<Rightarrow>
               if code = 404 then Inr None
               else if raise_for_status code then Inr None
               else (case content of
                       NotJson \<Rightarrow> Inl ValueError
                     | Misfit \<Rightarrow> Inl TypeError
                     | Record tx \<Rightarrow> Inr (Some tx))))"

text \<open>
  The \<open>while\<close> loop of \<open>wait_for_confirmation\<close>; \<open>start_time\<close> is the clock reading
  taken before it. The elapsed time is compared in milliseconds. An exception of the fetch
  leaves the loop.
\<close>

function chat_wait_loop ::
  "ChatChainTransaction rest_reply gateway \<Rightarrow> int \<Rightarrow> int \<Rightarrow> int \<Rightarrow> string \<Rightarrow> world
     \<Rightarrow> (wait_error + ChatChainTransaction) \<times> world"
where
  "chat_wait_loop gw confirmations max_wait_ms start_time txid w =
     (if clock w - start_time < max_wait_ms then
        (let w1 = await_request gw w in
         case chat_get_transaction (reply (gw (requests w))) of
           Inl e \<Rightarrow> (Inl (Uncaught e), w1)
         | Inr (Some tx) \<Rightarrow>
             if cc_confirmations tx \<ge> confirmations then (Inr tx, w1)
             else chat_wait_loop gw confirmations max_wait_ms start_time txid (sleep 1000 w1)
         | Inr None \<Rightarrow>
             chat_wait_loop gw confirmations max_wait_ms start_time txid (sleep 1000 w1))
      else (Inl Timeout, w))"
  by pat_completeness auto
termination
  by (relation "measure (\<lambda>(gw, cf, mx, st, tx, w). nat (st + mx - clock w))")
     (auto simp: await_request_def sleep_def)

declare chat_wait_loop.simps [simp del]

definition chat_wait_for_confirmation ::
  "ChatChainTransaction rest_reply gateway \<Rightarrow> string \<Rightarrow> int \<Rightarrow> int \<Rightarrow> world
     \<Rightarrow> (wait_error + ChatChainTransaction) \<times> world"
where
  "chat_wait_for_confirmation gw txid confirmations max_wait_ms w =
     chat_wait_loop gw confirmations max_wait_ms (clock w) txid w"

text \<open>The call with both keyword arguments left at their defaults.\<close>

definition chat_wait_for_confirmation_default ::
  "ChatChainTransaction rest_reply gateway \<Rightarrow> string \<Rightarrow> world
     \<Rightarrow> (wait_error + ChatChainTransaction) \<times> world"
where
  "chat_wait_for_confirmation_default gw txid w = chat_wait_for_confirmation gw txid 6 30000 w"

subsection \<open>Currency chain (currency_chain.py)\<close>

record CurrencyChainTransaction =
  cu_id :: string
  cu_tx_type :: string
  cu_from_user :: "string option"
  cu_to_user :: "string option"
  cu_amount :: int
  cu_status :: string
  cu_confirmations :: int
  cu_block_height :: int
  cu_created_at :: int

text \<open>
  The body is read with \<open>from\<close> and \<open>to\<close> already renamed to \<open>from_user\<close> and
  \<open>to_user\<close>, absent ones being \<open>None\<close>.
\<close>

definition currency_get_transaction ::
  "CurrencyChainTransaction rest_reply \<Rightarrow> py_exception + CurrencyChainTransaction option" where
  "currency_get_transaction r =
     (case r of
        HTTPError \<Rightarrow> Inr None
      | RestResponse status_code data \<Rightarrow>
          (case await_response (status_code, data) of
             Inl e \<Rightarrow> Inl e
           | Inr (code, content) \<Rightarrow>
               if code = 404 then Inr None
               else if raise_for_status code then Inr None
               else (case content of
                       NotJson \<Rightarrow> Inl ValueError
                     | Misfit \<Rightarrow> Inl TypeError
                     | Record tx \<Rightarrow> Inr (Some tx))))"

text \<open>The \<open>while\<close> loop of \<open>wait_for_confirmation\<close>, as on the chat chain.\<close>

function currency_wait_loop ::
  "CurrencyChainTransaction rest_reply gateway \<Rightarrow> int \<Rightarrow> int \<Rightarrow> int \<Rightarrow> string \<Rightarrow> world
     \<Rightarrow> (wait_error + CurrencyChainTransaction) \<times> world"
where
  "currency_wait_loop gw confirmations max_wait_ms start_time txid w =
     (if clock w - start_time < max_wait_ms then
        (let w1 = await_request gw w in
         case currency_get_transaction (reply (gw (requests w))) of
           Inl e \<Rightarrow> (Inl (Uncaught e), w1)
         | Inr (Some tx) \<Rightarrow>
             if cu_confirmations tx \<ge> confirmations then (Inr tx, w1)
             else currency_wait_loop gw confirmations max_wait_ms start_time txid (sleep 1000 w1)
         | Inr None \<Rightarrow>
             currency_wait_loop gw confirmations max_wait_ms start_time txid (sleep 1000 w1))
      else (Inl Timeout, w))"
  by pat_completeness auto
termination
  by (relation "measure (\<lambda>(gw, cf, mx, st, tx, w). nat (st + mx - clock w))")
     (auto simp: await_request_def sleep_def)

declare currency_wait_loop.simps [simp del]

definition currency_wait_for_confirmation ::
  "CurrencyChainTransaction rest_reply gateway \<Rightarrow> string \<Rightarrow> int \<Rightarrow> int \<Rightarrow> world
     \<Rightarrow> (wait_error + CurrencyChainTransaction) \<times> world"
where
  "currency_wait_for_confirmation gw txid confirmations max_wait_ms w =
     currency_wait_loop gw confirmations max_wait_ms (clock w) txid w"

definition currency_wait_for_confirmation_default ::
  "CurrencyChainTransaction rest_reply gateway \<Rightarrow> string \<Rightarrow> world
     \<Rightarrow> (wait_error + CurrencyChainTransaction) \<times> world"
where
  "currency_wait_for_confirmation_default gw txid w =
     currency_wait_for_confirmation gw txid 6 30000 w"

subsection \<open>Cross-chain bridge (cross_chain.py)\<close>

datatype CrossChainStatus =
    PENDING
  | CHAT_CHAIN_CONFIRMED
  | CURRENCY_CHAIN_CONFIRMED
  | ATOMIC_SUCCESS
  | ROLLED_BACK
  | FAILED

fun status_value :: "CrossChainStatus \<Rightarrow> string" where
  "status_value PENDING = ''pending''"
| "status_value CHAT_CHAIN_CONFIRMED = ''chat_chain_confirmed''"
| "status_value CURRENCY_CHAIN_CONFIRMED = ''currency_chain_confirmed''"
| "status_value ATOMIC_SUCCESS = ''atomic_success''"
| "status_value ROLLED_BACK = ''rolled_back''"
| "status_value FAILED = ''failed''"

record CrossChainTransaction =
  x_id :: string
  x_operation :: string
  x_user_id :: string
  x_chat_chain_tx :: "string option"
  x_currency_chain_tx :: "string option"
  x_status :: string
  x_created_at :: int
  x_finalized_at :: "int option"

definition get_status ::
  "CrossChainTransaction rest_reply \<Rightarrow> py_exception + CrossChainTransaction option" where
  "get_status r =
     (case r of
        HTTPError \<Rightarrow> Inr None
      | RestResponse status_code data \<Rightarrow>
          (case await_response (status_code, data) of
             Inl e \<Rightarrow> Inl e
           | Inr (code, content) \<Rightarrow>
               if code = 404 then Inr None
               else if raise_for_status code then Inr None
               else (case content of
                       NotJson \<Rightarrow> Inl ValueError
                     | Misfit \<Rightarrow> Inl TypeError
                     | Record tx \<Rightarrow> Inr (Some tx))))"

text \<open>The \<open>while\<close> loop of \<open>wait_for_atomic_completion\<close>.\<close>

function atomic_wait_loop ::
  "CrossChainTransaction rest_reply gateway \<Rightarrow> int \<Rightarrow> int \<Rightarrow> string \<Rightarrow> world
     \<Rightarrow> (wait_error + CrossChainTransaction) \<times> world"
where
  "atomic_wait_loop gw max_wait_ms start_time bridge_id w =
     (if clock w - start_time < max_wait_ms then
        (let w1 = await_request gw w in
         case get_status (reply (gw (requests w))) of
           Inl e \<Rightarrow> (Inl (Uncaught e), w1)
         | Inr (Some tx) \<Rightarrow>
             if x_status tx = status_value ATOMIC_SUCCESS then (Inr tx, w1)
             else if x_status tx \<in> set [status_value FAILED, status_value ROLLED_BACK]
               then (Inl (AtomicFailure (x_status tx)), w1)
             else atomic_wait_loop gw max_wait_ms start_time bridge_id (sleep 1000 w1)
         | Inr None \<Rightarrow> atomic_wait_loop gw max_wait_ms start_time bridge_id (sleep 1000 w1))
      else (Inl Timeout, w))"
  by pat_completeness auto
termination
  by (relation "measure (\<lambda>(gw, mx, st, tx, w). nat (st + mx - clock w))")
     (auto simp: await_request_def sleep_def)

declare atomic_wait_loop.simps [simp del]

definition wait_for_atomic_completion ::
  "CrossChainTransaction rest_reply gateway \<Rightarrow> string \<Rightarrow> int \<Rightarrow> world
     \<Rightarrow> (wait_error + CrossChainTransaction) \<times> world"
where
  "wait_for_atomic_completion gw bridge_id max_wait_ms w =
     atomic_wait_loop gw max_wait_ms (clock w) bridge_id w"

text \<open>The call with \<open>max_wait_ms\<close> left at its default.\<close>

definition wait_for_atomic_completion_default ::
  "CrossChainTransaction rest_reply gateway \<Rightarrow> string \<Rightarrow> world
     \<Rightarrow> (wait_error + CrossChainTransaction) \<times> world"
where
  "wait_for_atomic_completion_default gw bridge_id w =
     wait_for_atomic_completion gw bridge_id 60000 w"

section \<open>Vocabulary of the statements\<close>

text \<open>
  What a poll of each loop amounts to, read off the loop bodies: a reply is pending when
  the loop sleeps and polls again after it.
\<close>

definition is_pending :: "rpc_reply \<Rightarrow> bool" where
  "is_pending r =
     (case get_transaction_receipt r of
        Inr (Some rc) \<Rightarrow> \<not> success rc \<and> \<not> truthy (error rc)
      | _ \<Rightarrow> True)"

definition cached_terminal :: "client \<Rightarrow> string \<Rightarrow> bool" where
  "cached_terminal c txid =
     (case transaction_cache c txid of
        Some cached \<Rightarrow> success cached \<or> truthy (error cached)
      | None \<Rightarrow> False)"

text \<open>
  Replies of the JSON-RPC ledger that carry no receipt: a request that raised, a status
  other than 200 (404 included), a body without a \<open>result\<close>. And a request to a chain
  or to the bridge that got no response.
\<close>

definition transient_rpc :: "rpc_reply \<Rightarrow> bool" where
  "transient_rpc r =
     (case r of
        PostRaised \<Rightarrow> True
      | RpcResponse status body \<Rightarrow> status \<noteq> 200 \<or> body = None)"

definition unanswered :: "'a rest_reply \<Rightarrow> bool" where
  "unanswered r = (case r of HTTPError \<Rightarrow> True | RestResponse status_code data \<Rightarrow> False)"

text \<open>
  The state in which the next poll begins after a pending one: of the client, whose cache
  keeps a fetched receipt, and of a loop that only lets time pass.
\<close>

definition after_poll :: "rpc_reply gateway \<Rightarrow> string \<Rightarrow> client \<Rightarrow> client" where
  "after_poll gw txid c =
     (let c1 = await_request gw c in
      sleep 2000 (case get_transaction_receipt (reply (gw (requests c))) of
                    Inr (Some rc) \<Rightarrow>
                      c1\<lparr>transaction_cache := (transaction_cache c1)(txid \<mapsto> rc)\<rparr>
                  | _ \<Rightarrow> c1))"

definition next_poll :: "'r gateway \<Rightarrow> int \<Rightarrow> 'a world_scheme \<Rightarrow> 'a world_scheme" where
  "next_poll gw interval w = sleep interval (await_request gw w)"

text \<open>
  The invariant of the receipt data model, on a receipt and on the result object it is
  built from.
\<close>

definition exclusive :: "TransactionReceipt \<Rightarrow> bool" where
  "exclusive rc = (\<not> (success rc \<and> error rc \<noteq> None))"

definition consistent :: "rpc_result \<Rightarrow> bool" where
  "consistent j = (\<not> (j_success j = Some True \<and> j_error j \<noteq> None))"

section \<open>Sample inputs\<close>

text \<open>
  \<open>local_config\<close> is \<open>BlockchainClient.local()\<close>. The gateways are scripted ledgers.
\<close>

definition local_config :: BlockchainConfig where
  "local_config = \<lparr>rpc_url = ''http://localhost:8545'', ws_url = Some ''ws://localhost:8546'',
     confirmation_blocks = 6, confirmation_timeout = 300, max_retries = 3\<rparr>"

definition one_second_config :: BlockchainConfig where
  "one_second_config = local_config\<lparr>confirmation_timeout := 1\<rparr>"

definition fresh :: client where
  "fresh = \<lparr>clock = 0, requests = 0, transaction_cache = Map.empty\<rparr>"

definition at_start :: world where
  "at_start = \<lparr>clock = 0, requests = 0\<rparr>"

definition confirmed_result :: rpc_result where
  "confirmed_result = \<lparr>j_tx_id = Some ''u1'', j_tx_hash = Some ''0xabc'', j_success = Some True,
     j_block_height = Some 10, j_block_hash = None, j_timestamp = NoTimestamp, j_error = None\<rparr>"

definition confirmed_receipt :: TransactionReceipt where
  "confirmed_receipt = \<lparr>tx_id = ''u1'', tx_hash = ''0xabc'', success = True,
     block_height = Some 10, block_hash = None, timestamp = None, error = None\<rparr>"

definition pending_result :: rpc_result where
  "pending_result = \<lparr>j_tx_id = Some ''u1'', j_tx_hash = Some ''0xabc'', j_success = Some False,
     j_block_height = None, j_block_hash = None, j_timestamp = NoTimestamp, j_error = None\<rparr>"

definition failed_result :: rpc_result where
  "failed_result = \<lparr>j_tx_id = Some ''u1'', j_tx_hash = Some ''0xabc'', j_success = Some False,
     j_block_height = None, j_block_hash = None, j_timestamp = NoTimestamp,
     j_error = Some ''boom''\<rparr>"

definition failed_receipt :: TransactionReceipt where
  "failed_receipt = \<lparr>tx_id = ''u1'', tx_hash = ''0xabc'', success = False,
     block_height = None, block_hash = None, timestamp = None, error = Some ''boom''\<rparr>"

definition contradictory_result :: rpc_result where
  "contradictory_result = \<lparr>j_tx_id = Some ''u1'', j_tx_hash = Some ''0xabc'',
     j_success = Some True, j_block_height = Some 10, j_block_hash = None,
     j_timestamp = NoTimestamp, j_error = Some ''boom''\<rparr>"

definition contradictory_receipt :: TransactionReceipt where
  "contradictory_receipt = \<lparr>tx_id = ''u1'', tx_hash = ''0xabc'', success = True,
     block_height = Some 10, block_hash = None, timestamp = None, error = Some ''boom''\<rparr>"

definition pending_twice_then_confirmed :: "rpc_reply gateway" where
  "pending_twice_then_confirmed i =
     \<lparr>took = 0, reply = (if i < 2 then RpcResponse 200 None
                          else RpcResponse 200 (Some confirmed_result))\<rparr>"

definition pending_then_failed :: "rpc_reply gateway" where
  "pending_then_failed i =
     \<lparr>took = 150, reply = (if i < 1 then RpcResponse 200 (Some pending_result)
                            else RpcResponse 200 (Some failed_result))\<rparr>"

definition always_failed :: "rpc_reply gateway" where
  "always_failed i = \<lparr>took = 0, reply = RpcResponse 200 (Some failed_result)\<rparr>"

definition always_contradictory :: "rpc_reply gateway" where
  "always_contradictory i = \<lparr>took = 0, reply = RpcResponse 200 (Some contradictory_result)\<rparr>"

definition never_indexed :: "rpc_reply gateway" where
  "never_indexed i = \<lparr>took = 0, reply = RpcResponse 404 None\<rparr>"

definition slow_and_down :: "rpc_reply gateway" where
  "slow_and_down i = \<lparr>took = 5000, reply = PostRaised\<rparr>"

definition said_false :: json_result where
  "said_false = \<lparr>m_tx_id = Some (JString ''u1''), m_tx_hash = Some (JString ''0xabc''),
     m_success = Some (JString ''false''), m_block_height = None, m_block_hash = None,
     m_timestamp = NoTimestamp, m_error = None\<rparr>"

definition six_deep :: ChatChainTransaction where
  "six_deep = \<lparr>cc_id = ''t1'', cc_tx_type = ''register_user'', cc_sender = ''alice'',
     cc_data = [], cc_status = ''confirmed'', cc_confirmations = 6, cc_block_height = 1,
     cc_created_at = 0\<rparr>"


definition six_at_once :: "ChatChainTransaction rest_reply gateway" where
  "six_at_once i = \<lparr>took = 20, reply = RestResponse 200 (Record six_deep)\<rparr>"


definition not_found :: "ChatChainTransaction rest_reply gateway" where
  "not_found i = \<lparr>took = 20, reply = RestResponse 404 NotJson\<rparr>"

definition paid :: CurrencyChainTransaction where
  "paid = \<lparr>cu_id = ''p1'', cu_tx_type = ''payment'', cu_from_user = Some ''alice'',
     cu_to_user = Some ''bob'', cu_amount = 5, cu_status = ''confirmed'', cu_confirmations = 6,
     cu_block_height = 1, cu_created_at = 0\<rparr>"

definition paid_at_once :: "CurrencyChainTransaction rest_reply gateway" where
  "paid_at_once i = \<lparr>took = 20, reply = RestResponse 200 (Record paid)\<rparr>"

definition staked :: CrossChainTransaction where
  "staked = \<lparr>x_id = ''b1'', x_operation = ''register_user_with_stake'', x_user_id = ''alice'',
     x_chat_chain_tx = Some ''t1'', x_currency_chain_tx = Some ''p1'',
     x_status = ''atomic_success'', x_created_at = 0, x_finalized_at = Some 2\<rparr>"

definition succeeded_at_once :: "CrossChainTransaction rest_reply gateway" where
  "succeeded_at_once i = \<lparr>took = 30, reply = RestResponse 200 (Record staked)\<rparr>"

definition rolled_back_at_once :: "CrossChainTransaction rest_reply gateway" where
  "rolled_back_at_once i =
     \<lparr>took = 30, reply = RestResponse 200 (Record (staked\<lparr>x_status := ''rolled_back''\<rparr>))\<rparr>"

section \<open>Polling loops in general\<close>

subsection \<open>When polls begin\<close>

lemma poll_clock_Suc:
  "poll_clock gw i n t (Suc k) = poll_clock gw i n t k + int (took (gw (n + k))) + i"
proof (induction k arbitrary: n t)
  case 0
  show ?case by simp
next
  case (Suc k)
  have "poll_clock gw i n t (Suc (Suc k))
        = poll_clock gw i (Suc n) (t + int (took (gw n)) + i) (Suc k)"
    by simp
  also have "\<dots> = poll_clock gw i (Suc n) (t + int (took (gw n)) + i) k
                  + int (took (gw (Suc n + k))) + i"
    by (rule Suc.IH)
  also have "\<dots> = poll_clock gw i n t (Suc k) + int (took (gw (n + Suc k))) + i"
    by simp
  finally show ?case .
qed

lemma poll_clock_lower: "t + i * int k \<le> poll_clock gw i n t k"
proof (induction k)
  case 0
  show ?case by simp
next
  case (Suc k)
  have "t + i * int (Suc k) = (t + i * int k) + i" by (simp add: algebra_simps)
  also have "\<dots> \<le> poll_clock gw i n t k + int (took (gw (n + k))) + i"
    using Suc.IH by simp
  finally show ?case by (simp only: poll_clock_Suc)
qed

lemma first_unbegun:
  assumes "0 < i"
  shows "\<exists>m. \<not> poll_clock gw i n t m < d \<and> (\<forall>j<m. poll_clock gw i n t j < d)"
proof -
  have "t + i * int (nat (d - t)) \<le> poll_clock gw i n t (nat (d - t))"
    by (rule poll_clock_lower)
  moreover have "int (nat (d - t)) \<le> i * int (nat (d - t))"
    using assms by (simp add: mult_le_cancel_right1)
  ultimately have ex: "\<not> poll_clock gw i n t (nat (d - t)) < d" by linarith
  define m where "m = (LEAST m. \<not> poll_clock gw i n t m < d)"
  have "\<not> poll_clock gw i n t m < d"
    unfolding m_def using ex by (rule LeastI)
  moreover have "\<forall>j<m. poll_clock gw i n t j < d"
    unfolding m_def using not_less_Least by blast
  ultimately show ?thesis by blast
qed

lemma unbegun_prefix:
  assumes "\<not> poll_clock gw i n t k < d"
  shows "\<exists>m\<le>k. \<not> poll_clock gw i n t m < d \<and> (\<forall>j<m. poll_clock gw i n t j < d)"
proof -
  define m where "m = (LEAST m. \<not> poll_clock gw i n t m < d)"
  have "\<not> poll_clock gw i n t m < d"
    unfolding m_def using assms by (rule LeastI)
  moreover have "\<forall>j<m. poll_clock gw i n t j < d"
    unfolding m_def using not_less_Least by blast
  moreover have "m \<le> k"
    unfolding m_def using assms by (rule Least_le)
  ultimately show ?thesis by blast
qed

lemma begun_prefix:
  assumes "0 \<le> i" and "poll_clock gw i n t k < d" and "j \<le> k"
  shows "poll_clock gw i n t j < d"
proof -
  have "poll_clock gw i n t j \<le> poll_clock gw i n t k"
    using assms(3)
  proof (induction k)
    case 0
    then show ?case by simp
  next
    case (Suc k)
    show ?case
    proof (cases "j = Suc k")
      case True
      then show ?thesis by simp
    next
      case False
      with Suc.prems have "j \<le> k" by simp
      then have "poll_clock gw i n t j \<le> poll_clock gw i n t k" by (rule Suc.IH)
      also have "\<dots> \<le> poll_clock gw i n t (Suc k)"
        using assms(1) by (simp add: poll_clock_Suc del: poll_clock.simps)
      finally show ?thesis .
    qed
  qed
  with assms(2) show ?thesis by simp
qed

subsection \<open>Loops that continue after a pending poll\<close>

text \<open>
  The four wait loops share one shape: while the deadline is ahead, a pending poll leads to
  the same loop in a later state. The lemmas below are about any function \<open>F\<close> of that
  shape.
\<close>

lemma iterate_clock:
  fixes nxt :: "'s \<Rightarrow> 's" and clk :: "'s \<Rightarrow> int" and req :: "'s \<Rightarrow> nat"
  assumes clk: "\<And>s. clk (nxt s) = clk s + int (took (gw (req s))) + i"
    and req: "\<And>s. req (nxt s) = Suc (req s)"
  shows "clk ((nxt ^^ k) s) = poll_clock gw i (req s) (clk s) k
         \<and> req ((nxt ^^ k) s) = req s + k"
  by (induction k arbitrary: s) (simp_all add: funpow_swap1 clk req)

lemma skip_polls:
  fixes F :: "'s \<Rightarrow> 'b" and nxt :: "'s \<Rightarrow> 's" and clk :: "'s \<Rightarrow> int" and req :: "'s \<Rightarrow> nat"
  assumes cont: "\<And>s. clk s < d \<Longrightarrow> P (reply (gw (req s))) \<Longrightarrow> F s = F (nxt s)"
    and clk: "\<And>s. clk (nxt s) = clk s + int (took (gw (req s))) + i"
    and req: "\<And>s. req (nxt s) = Suc (req s)"
    and pend: "\<forall>j<k. P (reply (gw (req s + j)))"
    and begun: "\<forall>j<k. poll_clock gw i (req s) (clk s) j < d"
  shows "F s = F ((nxt ^^ k) s)"
  using pend begun
proof (induction k arbitrary: s)
  case 0
  show ?case by simp
next
  case (Suc k)
  from Suc.prems(2) have "poll_clock gw i (req s) (clk s) 0 < d" by blast
  then have now: "clk s < d" by simp
  from Suc.prems(1) have "P (reply (gw (req s + 0)))" by blast
  then have p0: "P (reply (gw (req s)))" by simp
  have first: "F s = F (nxt s)"
    using now p0 by (rule cont)
  have "\<forall>j<k. P (reply (gw (req (nxt s) + j)))"
  proof (intro allI impI)
    fix j assume "j < k"
    then have "Suc j < Suc k" by simp
    with Suc.prems(1) have "P (reply (gw (req s + Suc j)))" by blast
    then show "P (reply (gw (req (nxt s) + j)))" by (simp add: req)
  qed
  moreover have "\<forall>j<k. poll_clock gw i (req (nxt s)) (clk (nxt s)) j < d"
  proof (intro allI impI)
    fix j assume "j < k"
    then have "Suc j < Suc k" by simp
    with Suc.prems(2) have "poll_clock gw i (req s) (clk s) (Suc j) < d" by blast
    then show "poll_clock gw i (req (nxt s)) (clk (nxt s)) j < d" by (simp add: req clk)
  qed
  ultimately have "F (nxt s) = F ((nxt ^^ k) (nxt s))"
    by (rule Suc.IH)
  with first show ?case by (simp add: funpow_swap1)
qed

lemma loop_invariant:
  fixes F :: "'s \<Rightarrow> 'b" and clk :: "'s \<Rightarrow> int"
  assumes cont: "\<And>s. I s \<Longrightarrow> clk s < d \<Longrightarrow> P s \<Longrightarrow>
                   F s = F (nxt s) \<and> I (nxt s) \<and> clk s < clk (nxt s)"
    and stop: "\<And>s. I s \<Longrightarrow> \<not> (clk s < d \<and> P s) \<Longrightarrow> Q (F s)"
    and init: "I s"
  shows "Q (F s)"
  using init
proof (induction "nat (d - clk s)" arbitrary: s rule: less_induct)
  case less
  show ?case
  proof (cases "clk s < d \<and> P s")
    case False
    with less.prems show ?thesis by (rule stop)
  next
    case True
    with less.prems have step: "F s = F (nxt s)" "I (nxt s)" "clk s < clk (nxt s)"
      using cont by blast+
    from step(3) True have "nat (d - clk (nxt s)) < nat (d - clk s)" by simp
    then have "Q (F (nxt s))" using step(2) by (rule less.hyps)
    with step(1) show ?thesis by simp
  qed
qed

lemma next_polls:
  "(next_poll gw i ^^ k) w
     = w\<lparr>clock := poll_clock gw i (requests w) (clock w) k, requests := requests w + k\<rparr>"
proof (induction k arbitrary: w)
  case 0
  show ?case by simp
next
  case (Suc k)
  have "(next_poll gw i ^^ Suc k) w = (next_poll gw i ^^ k) (next_poll gw i w)"
    by (simp add: funpow_swap1)
  also have "\<dots> = (next_poll gw i w)\<lparr>clock := poll_clock gw i (requests (next_poll gw i w))
                       (clock (next_poll gw i w)) k,
                     requests := requests (next_poll gw i w) + k\<rparr>"
    by (rule Suc.IH)
  also have "\<dots> = w\<lparr>clock := poll_clock gw i (requests w) (clock w) (Suc k),
                      requests := requests w + Suc k\<rparr>"
    by (simp add: next_poll_def sleep_def await_request_def)
  finally show ?case .
qed

lemma polls_reach:
  fixes F :: "'a world_scheme \<Rightarrow> 'b"
  assumes cont: "\<And>w. clock w < d \<Longrightarrow> P (reply (gw (requests w))) \<Longrightarrow> F w = F (next_poll gw i w)"
    and "0 \<le> i"
    and pend: "\<forall>j<k. P (reply (gw (requests w + j)))"
    and begun: "poll_clock gw i (requests w) (clock w) k < d"
  shows "F w = F (w\<lparr>clock := poll_clock gw i (requests w) (clock w) k,
                     requests := requests w + k\<rparr>)"
proof -
  have all: "\<forall>j<k. poll_clock gw i (requests w) (clock w) j < d"
    using begun_prefix [OF assms(2) begun] by simp
  have "F w = F ((next_poll gw i ^^ k) w)"
    by (rule skip_polls [where F = F and nxt = "next_poll gw i" and P = P and clk = clock
          and req = requests and i = i and gw = gw and d = d])
       (simp_all add: cont pend all next_poll_def sleep_def await_request_def)
  then show ?thesis by (simp only: next_polls)
qed

lemma polls_expire:
  fixes F :: "'a world_scheme \<Rightarrow> (wait_error + 'b) \<times> 'a world_scheme"
  assumes cont: "\<And>w. clock w < d \<Longrightarrow> P (reply (gw (requests w))) \<Longrightarrow> F w = F (next_poll gw i w)"
    and expired: "\<And>w. \<not> clock w < d \<Longrightarrow> F w = (Inl Timeout, w)"
    and pend: "\<forall>j<k. P (reply (gw (requests w + j)))"
    and late: "\<not> poll_clock gw i (requests w) (clock w) k < d"
  shows "\<exists>m\<le>k. F w = (Inl Timeout, w\<lparr>clock := poll_clock gw i (requests w) (clock w) m,
                                        requests := requests w + m\<rparr>)
               \<and> \<not> poll_clock gw i (requests w) (clock w) m < d
               \<and> (\<forall>j<m. poll_clock gw i (requests w) (clock w) j < d)"
proof -
  from unbegun_prefix [OF late] obtain m where m: "m \<le> k"
    "\<not> poll_clock gw i (requests w) (clock w) m < d"
    "\<forall>j<m. poll_clock gw i (requests w) (clock w) j < d" by blast
  have pend': "\<forall>j<m. P (reply (gw (requests w + j)))"
    using pend m(1) by simp
  let ?w = "w\<lparr>clock := poll_clock gw i (requests w) (clock w) m, requests := requests w + m\<rparr>"
  have "F w = F ((next_poll gw i ^^ m) w)"
    by (rule skip_polls [where F = F and nxt = "next_poll gw i" and P = P and clk = clock
          and req = requests and i = i and gw = gw and d = d])
       (simp_all add: cont pend' m(3) next_poll_def sleep_def await_request_def)
  then have "F w = F ?w" by (simp only: next_polls)
  moreover have "F ?w = (Inl Timeout, ?w)"
    using m(2) by (intro expired) simp
  ultimately show ?thesis using m by auto
qed

lemma polls_never_decided:
  fixes F :: "'a world_scheme \<Rightarrow> (wait_error + 'b) \<times> 'a world_scheme"
  assumes cont: "\<And>w. clock w < d \<Longrightarrow> P (reply (gw (requests w))) \<Longrightarrow> F w = F (next_poll gw i w)"
    and expired: "\<And>w. \<not> clock w < d \<Longrightarrow> F w = (Inl Timeout, w)"
    and "0 < i"
    and pend: "\<forall>n. P (reply (gw n))"
  shows "fst (F w) = Inl Timeout \<and> d \<le> clock (snd (F w))"
proof -
  obtain k where k: "\<not> poll_clock gw i (requests w) (clock w) k < d"
    using first_unbegun [OF assms(3), of gw "requests w" "clock w" d] by auto
  have "\<forall>j<k. P (reply (gw (requests w + j)))" using pend by simp
  from polls_expire [of d P gw F i, OF cont expired this k] show ?thesis by auto
qed

section \<open>The generic client\<close>

subsection \<open>One poll\<close>

lemma receipt_of_result_fields:
  "receipt_of_result j = Inr rc \<Longrightarrow> j_success j = Some (success rc) \<and> j_error j = error rc"
  by (auto simp: receipt_of_result_def split: option.splits iso_field.splits)

lemma get_transaction_receipt_fields:
  "get_transaction_receipt r = Inr (Some rc) \<Longrightarrow>
   \<exists>j. r = RpcResponse 200 (Some j) \<and> j_success j = Some (success rc) \<and> j_error j = error rc"
  by (auto simp: get_transaction_receipt_def post_receipt_def
           split: sum.splits rpc_reply.splits if_splits option.splits
           dest: receipt_of_result_fields)

lemma not_pending:
  "\<not> is_pending r \<Longrightarrow>
   \<exists>rc. get_transaction_receipt r = Inr (Some rc) \<and> (success rc \<or> truthy (error rc))"
  by (auto simp: is_pending_def split: sum.splits option.splits)

lemma transient_rpc_none: "transient_rpc r \<Longrightarrow> get_transaction_receipt r = Inr None"
  by (auto simp: transient_rpc_def get_transaction_receipt_def post_receipt_def
           split: rpc_reply.splits)

lemma wait_loop_expired: "\<not> clock c < d \<Longrightarrow> wait_loop gw d tx c = (Inl Timeout, c)"
  by (simp add: wait_loop.simps)

lemma wait_loop_pending:
  "clock c < d \<Longrightarrow> is_pending (reply (gw (requests c))) \<Longrightarrow>
   wait_loop gw d tx c = wait_loop gw d tx (after_poll gw tx c)"
  by (subst wait_loop.simps)
     (auto simp: is_pending_def after_poll_def Let_def split: sum.splits option.splits)

lemma wait_loop_success:
  "clock c < d \<Longrightarrow> get_transaction_receipt (reply (gw (requests c))) = Inr (Some rc) \<Longrightarrow>
   success rc \<Longrightarrow>
   wait_loop gw d tx c =
     (Inr rc, (await_request gw c)\<lparr>transaction_cache := (transaction_cache c)(tx \<mapsto> rc)\<rparr>)"
  by (subst wait_loop.simps) (simp add: Let_def await_request_def)

lemma wait_loop_failed:
  "clock c < d \<Longrightarrow> get_transaction_receipt (reply (gw (requests c))) = Inr (Some rc) \<Longrightarrow>
   \<not> success rc \<Longrightarrow> truthy (error rc) \<Longrightarrow>
   wait_loop gw d tx c =
     (Inl (TransactionFailed (the (error rc))),
      (await_request gw c)\<lparr>transaction_cache := (transaction_cache c)(tx \<mapsto> rc)\<rparr>)"
  by (subst wait_loop.simps) (simp add: Let_def await_request_def)

lemma wait_loop_decided:
  assumes "clock c < d" and "\<not> is_pending (reply (gw (requests c)))"
  shows "\<exists>rc. get_transaction_receipt (reply (gw (requests c))) = Inr (Some rc)
           \<and> snd (wait_loop gw d tx c)
               = (await_request gw c)\<lparr>transaction_cache := (transaction_cache c)(tx \<mapsto> rc)\<rparr>
           \<and> (if success rc then fst (wait_loop gw d tx c) = Inr rc
               else truthy (error rc)
                    \<and> fst (wait_loop gw d tx c) = Inl (TransactionFailed (the (error rc))))"
proof -
  from not_pending [OF assms(2)] obtain rc where
    rc: "get_transaction_receipt (reply (gw (requests c))) = Inr (Some rc)"
        "success rc \<or> truthy (error rc)" by blast
  show ?thesis
  proof (cases "success rc")
    case True
    with assms(1) rc(1) show ?thesis by (simp add: wait_loop_success)
  next
    case False
    with rc(2) have "truthy (error rc)" by simp
    with assms(1) rc(1) False show ?thesis by (simp add: wait_loop_failed)
  qed
qed

lemma wait_loop_transient:
  "clock c < d \<Longrightarrow> transient_rpc (reply (gw (requests c))) \<Longrightarrow>
   wait_loop gw d tx c = wait_loop gw d tx (next_poll gw 2000 c)"
  by (subst wait_loop.simps) (simp add: transient_rpc_none next_poll_def Let_def)

lemma clock_after_poll:
  "clock (after_poll gw tx c) = clock c + int (took (gw (requests c))) + 2000"
  by (simp add: after_poll_def Let_def await_request_def sleep_def split: sum.splits option.splits)

lemma requests_after_poll: "requests (after_poll gw tx c) = Suc (requests c)"
  by (simp add: after_poll_def Let_def await_request_def sleep_def split: sum.splits option.splits)

lemma after_poll_cache:
  "transaction_cache (after_poll gw tx c) key = Some rc \<Longrightarrow>
   transaction_cache c key = Some rc
   \<or> get_transaction_receipt (reply (gw (requests c))) = Inr (Some rc)"
  by (auto simp: after_poll_def Let_def await_request_def sleep_def
           split: sum.splits option.splits if_splits)

lemma wait_for_confirmation_uncached:
  "\<not> cached_terminal c tx \<Longrightarrow>
   wait_for_confirmation cfg gw tx c
     = wait_loop gw (clock c + 1000 * confirmation_timeout cfg) tx c"
  by (auto simp: wait_for_confirmation_def cached_terminal_def Let_def split: option.splits)

subsection \<open>Whole waits\<close>

lemma wait_loop_reaches:
  assumes "\<forall>j<k. is_pending (reply (gw (requests c + j)))"
    and "poll_clock gw 2000 (requests c) (clock c) k < d"
  shows "\<exists>c'. wait_loop gw d tx c = wait_loop gw d tx c'
            \<and> clock c' = poll_clock gw 2000 (requests c) (clock c) k
            \<and> requests c' = requests c + k"
proof -
  have begun: "\<forall>j<k. poll_clock gw 2000 (requests c) (clock c) j < d"
    using begun_prefix [OF _ assms(2)] by simp
  have "wait_loop gw d tx c = wait_loop gw d tx ((after_poll gw tx ^^ k) c)"
    by (rule skip_polls [where F = "wait_loop gw d tx" and nxt = "after_poll gw tx"
          and P = is_pending and clk = clock and req = requests and i = 2000 and gw = gw and d = d])
       (simp_all add: wait_loop_pending clock_after_poll requests_after_poll assms(1) begun)
  moreover have "clock ((after_poll gw tx ^^ k) c) = poll_clock gw 2000 (requests c) (clock c) k
      \<and> requests ((after_poll gw tx ^^ k) c) = requests c + k"
    by (rule iterate_clock [where nxt = "after_poll gw tx" and clk = clock and req = requests])
       (simp_all add: clock_after_poll requests_after_poll)
  ultimately show ?thesis by blast
qed

lemma wait_loop_expires:
  assumes "\<forall>j<k. is_pending (reply (gw (requests c + j)))"
    and "\<not> poll_clock gw 2000 (requests c) (clock c) k < d"
  shows "\<exists>m c'. m \<le> k \<and> wait_loop gw d tx c = (Inl Timeout, c')
            \<and> clock c' = poll_clock gw 2000 (requests c) (clock c) m
            \<and> requests c' = requests c + m
            \<and> \<not> poll_clock gw 2000 (requests c) (clock c) m < d
            \<and> (\<forall>j<m. poll_clock gw 2000 (requests c) (clock c) j < d)"
proof -
  from unbegun_prefix [OF assms(2)] obtain m where m: "m \<le> k"
    "\<not> poll_clock gw 2000 (requests c) (clock c) m < d"
    "\<forall>j<m. poll_clock gw 2000 (requests c) (clock c) j < d" by blast
  have pend: "\<forall>j<m. is_pending (reply (gw (requests c + j)))"
    using assms(1) m(1) by simp
  let ?c = "(after_poll gw tx ^^ m) c"
  have eq: "wait_loop gw d tx c = wait_loop gw d tx ?c"
    by (rule skip_polls [where F = "wait_loop gw d tx" and nxt = "after_poll gw tx"
          and P = is_pending and clk = clock and req = requests and i = 2000 and gw = gw and d = d])
       (simp_all add: wait_loop_pending clock_after_poll requests_after_poll pend m(3))
  have st: "clock ?c = poll_clock gw 2000 (requests c) (clock c) m \<and> requests ?c = requests c + m"
    by (rule iterate_clock [where nxt = "after_poll gw tx" and clk = clock and req = requests])
       (simp_all add: clock_after_poll requests_after_poll)
  then have "\<not> clock ?c < d" using m(2) by simp
  then have "wait_loop gw d tx ?c = (Inl Timeout, ?c)" by (rule wait_loop_expired)
  with eq st m show ?thesis by metis
qed

lemma wait_loop_cache:
  assumes "\<forall>key rc. transaction_cache c key = Some rc \<longrightarrow> G rc"
    and "\<forall>n rc. get_transaction_receipt (reply (gw n)) = Inr (Some rc) \<longrightarrow> G rc"
  shows "\<forall>key rc. transaction_cache (snd (wait_loop gw d tx c)) key = Some rc \<longrightarrow> G rc"
proof (rule loop_invariant [where F = "wait_loop gw d tx" and clk = clock and d = d
      and nxt = "after_poll gw tx" and P = "\<lambda>s. is_pending (reply (gw (requests s)))"
      and I = "\<lambda>s. \<forall>key rc. transaction_cache s key = Some rc \<longrightarrow> G rc"
      and Q = "\<lambda>r. \<forall>key rc. transaction_cache (snd r) key = Some rc \<longrightarrow> G rc"])
  fix s :: client
  assume inv: "\<forall>key rc. transaction_cache s key = Some rc \<longrightarrow> G rc"
  {
    assume "clock s < d" and "is_pending (reply (gw (requests s)))"
    then have "wait_loop gw d tx s = wait_loop gw d tx (after_poll gw tx s)"
      by (rule wait_loop_pending)
    moreover have "\<forall>key rc. transaction_cache (after_poll gw tx s) key = Some rc \<longrightarrow> G rc"
      using inv assms(2) after_poll_cache by blast
    moreover have "clock s < clock (after_poll gw tx s)"
      by (simp add: clock_after_poll)
    ultimately show "wait_loop gw d tx s = wait_loop gw d tx (after_poll gw tx s)
        \<and> (\<forall>key rc. transaction_cache (after_poll gw tx s) key = Some rc \<longrightarrow> G rc)
        \<and> clock s < clock (after_poll gw tx s)" by blast
  }
  {
    assume stop: "\<not> (clock s < d \<and> is_pending (reply (gw (requests s))))"
    show "\<forall>key rc. transaction_cache (snd (wait_loop gw d tx s)) key = Some rc \<longrightarrow> G rc"
    proof (cases "clock s < d")
      case False
      then show ?thesis using inv by (simp add: wait_loop_expired)
    next
      case True
      with stop have "\<not> is_pending (reply (gw (requests s)))" by simp
      with True wait_loop_decided [of s d gw tx] obtain r where
        "get_transaction_receipt (reply (gw (requests s))) = Inr (Some r)"
        "snd (wait_loop gw d tx s)
           = (await_request gw s)\<lparr>transaction_cache := (transaction_cache s)(tx \<mapsto> r)\<rparr>"
        by blast
      then show ?thesis using inv assms(2) by (auto simp: await_request_def)
    qed
  }
next
  show "\<forall>key rc. transaction_cache c key = Some rc \<longrightarrow> G rc" by (rule assms(1))
qed

lemma wait_loop_caches_outcome:
  "(\<forall>rc. fst (wait_loop gw d tx c) = Inr rc \<longrightarrow>
       transaction_cache (snd (wait_loop gw d tx c)) tx = Some rc \<and> success rc)
   \<and> (\<forall>m. fst (wait_loop gw d tx c) = Inl (TransactionFailed m) \<longrightarrow>
       (\<exists>rc. transaction_cache (snd (wait_loop gw d tx c)) tx = Some rc
             \<and> \<not> success rc \<and> truthy (error rc) \<and> error rc = Some m))"
proof (rule loop_invariant [where F = "wait_loop gw d tx" and clk = clock and d = d
      and nxt = "after_poll gw tx" and P = "\<lambda>s. is_pending (reply (gw (requests s)))"
      and I = "\<lambda>s. True"])
  fix s :: client
  show "wait_loop gw d tx s = wait_loop gw d tx (after_poll gw tx s)
        \<and> True \<and> clock s < clock (after_poll gw tx s)"
    if "clock s < d" and "is_pending (reply (gw (requests s)))"
    using that by (simp add: wait_loop_pending clock_after_poll)
  show "(\<forall>rc. fst (wait_loop gw d tx s) = Inr rc \<longrightarrow>
           transaction_cache (snd (wait_loop gw d tx s)) tx = Some rc \<and> success rc)
        \<and> (\<forall>m. fst (wait_loop gw d tx s) = Inl (TransactionFailed m) \<longrightarrow>
           (\<exists>rc. transaction_cache (snd (wait_loop gw d tx s)) tx = Some rc
                 \<and> \<not> success rc \<and> truthy (error rc) \<and> error rc = Some m))"
    if "\<not> (clock s < d \<and> is_pending (reply (gw (requests s))))"
  proof (cases "clock s < d")
    case False
    then show ?thesis by (simp add: wait_loop_expired)
  next
    case True
    with that have "\<not> is_pending (reply (gw (requests s)))" by simp
    with True wait_loop_decided [of s d gw tx] obtain r where r:
      "snd (wait_loop gw d tx s)
         = (await_request gw s)\<lparr>transaction_cache := (transaction_cache s)(tx \<mapsto> r)\<rparr>"
      "if success r then fst (wait_loop gw d tx s) = Inr r
       else truthy (error r)
            \<and> fst (wait_loop gw d tx s) = Inl (TransactionFailed (the (error r)))"
      by blast
    show ?thesis
    proof (cases "success r")
      case True
      with r show ?thesis by simp
    next
      case False
      with r have "truthy (error r)"
        "fst (wait_loop gw d tx s) = Inl (TransactionFailed (the (error r)))" by simp_all
      moreover from this(1) have "error r = Some (the (error r))"
        by (cases "error r") (simp_all add: truthy_def)
      ultimately show ?thesis using r(1) False by auto
    qed
  qed
qed simp

lemmas eval_client =
  wait_for_confirmation_def wait_loop.simps get_transaction_receipt_def post_receipt_def
  receipt_of_result_def await_request_def sleep_def Let_def truthy_def fresh_def local_config_def

subsection \<open>The outcome of a wait\<close>

text \<open>
  Claim C2 reads: the wait fails with \<open>TransactionFailed\<close> if the fetched receipt has
  \<open>error\<close> set, and otherwise returns once \<open>success\<close> is true. The loop tests
  \<open>success\<close> first: a receipt with \<open>success\<close> true and \<open>error\<close> ''boom'' is
  returned.
\<close>

theorem success_beats_error_counterexample:
  "get_transaction_receipt (reply (always_contradictory 0)) = Inr (Some contradictory_receipt)
   \<and> error contradictory_receipt = Some ''boom''
   \<and> fst (wait_for_confirmation local_config always_contradictory ''u1'' fresh)
       = Inr contradictory_receipt"
  by (simp add: eval_client always_contradictory_def contradictory_result_def
        contradictory_receipt_def)

text \<open>
  Claim C2, as the code has it. A wait that finds no terminal receipt cached polls until
  the first poll that is not pending. If poll \<open>k\<close> is that poll and begins before the
  deadline, the wait ends there, after \<open>k + 1\<close> requests: it returns the receipt when
  its \<open>success\<close> is true (whatever its \<open>error\<close>), and fails with
  \<open>TransactionFailed\<close> carrying the error when \<open>success\<close> is false and the error is
  a non-empty string. If the deadline is reached while every poll so far was pending, the
  wait fails with \<open>Timeout\<close>.
\<close>

theorem wait_for_confirmation_outcome:
  assumes "\<not> cached_terminal c tx"
    and "\<forall>j<k. is_pending (reply (gw (requests c + j)))"
  shows "(\<not> poll_clock gw 2000 (requests c) (clock c) k
              < clock c + 1000 * confirmation_timeout cfg
            \<longrightarrow> fst (wait_for_confirmation cfg gw tx c) = Inl Timeout)
       \<and> (poll_clock gw 2000 (requests c) (clock c) k < clock c + 1000 * confirmation_timeout cfg
            \<longrightarrow> (\<forall>rc. get_transaction_receipt (reply (gw (requests c + k))) = Inr (Some rc) \<longrightarrow>
                  (success rc \<longrightarrow>
                     fst (wait_for_confirmation cfg gw tx c) = Inr rc
                     \<and> requests (snd (wait_for_confirmation cfg gw tx c)) = requests c + Suc k)
                \<and> (\<not> success rc \<and> truthy (error rc) \<longrightarrow>
                     fst (wait_for_confirmation cfg gw tx c)
                       = Inl (TransactionFailed (the (error rc)))
                     \<and> requests (snd (wait_for_confirmation cfg gw tx c)) = requests c + Suc k)))"
proof -
  let ?d = "clock c + 1000 * confirmation_timeout cfg"
  have loop: "wait_for_confirmation cfg gw tx c = wait_loop gw ?d tx c"
    using assms(1) by (rule wait_for_confirmation_uncached)
  have late: "fst (wait_loop gw ?d tx c) = Inl Timeout"
    if "\<not> poll_clock gw 2000 (requests c) (clock c) k < ?d"
    using wait_loop_expires [OF assms(2) that, of tx] by auto
  have early: "(success rc \<longrightarrow>
                  fst (wait_loop gw ?d tx c) = Inr rc
                  \<and> requests (snd (wait_loop gw ?d tx c)) = requests c + Suc k)
             \<and> (\<not> success rc \<and> truthy (error rc) \<longrightarrow>
                  fst (wait_loop gw ?d tx c) = Inl (TransactionFailed (the (error rc)))
                  \<and> requests (snd (wait_loop gw ?d tx c)) = requests c + Suc k)"
    if begun: "poll_clock gw 2000 (requests c) (clock c) k < ?d"
      and got: "get_transaction_receipt (reply (gw (requests c + k))) = Inr (Some rc)"
    for rc
  proof -
    from wait_loop_reaches [OF assms(2) begun] obtain c' where c':
      "wait_loop gw ?d tx c = wait_loop gw ?d tx c'"
      "clock c' = poll_clock gw 2000 (requests c) (clock c) k" "requests c' = requests c + k"
      by blast
    have now: "clock c' < ?d" using begun c'(2) by simp
    have got': "get_transaction_receipt (reply (gw (requests c'))) = Inr (Some rc)"
      using got c'(3) by simp
    show ?thesis
      using now got' c'(1,3)
      by (auto simp: wait_loop_success wait_loop_failed await_request_def)
  qed
  show ?thesis
    unfolding loop using late early by blast
qed

theorem wait_for_confirmation_outcome_witness:
  "fst (wait_for_confirmation local_config pending_then_failed ''u1'' fresh)
     = Inl (TransactionFailed ''boom'')
   \<and> requests (snd (wait_for_confirmation local_config pending_then_failed ''u1'' fresh)) = 2"
  using wait_for_confirmation_outcome [of fresh "''u1''" 1 pending_then_failed local_config]
  by (simp add: cached_terminal_def fresh_def is_pending_def get_transaction_receipt_def
        post_receipt_def receipt_of_result_def pending_then_failed_def pending_result_def
        failed_result_def local_config_def truthy_def)

text \<open>
  Claim C8. When the first two polls of a wait are pending and the third yields a receipt
  with \<open>success\<close> true and block height 10, \<open>wait_for_confirmation\<close> returns
  that receipt and has issued exactly three receipt requests. The wait starts with no
  terminal receipt cached for the id, and its third poll begins before the deadline (with
  the default timeout of 300 s, whenever the first two fetches take less than 296 s).
\<close>

theorem confirmed_after_three_polls:
  assumes "\<not> cached_terminal c tx"
    and "is_pending (reply (gw (requests c)))"
    and "is_pending (reply (gw (requests c + 1)))"
    and "get_transaction_receipt (reply (gw (requests c + 2))) = Inr (Some rc)"
    and "success rc" and "block_height rc = Some 10"
    and "poll_clock gw 2000 (requests c) (clock c) 2 < clock c + 1000 * confirmation_timeout cfg"
  shows "fst (wait_for_confirmation cfg gw tx c) = Inr rc
         \<and> requests (snd (wait_for_confirmation cfg gw tx c)) = requests c + 3"
proof -
  let ?d = "clock c + 1000 * confirmation_timeout cfg"
  have "\<forall>j<2. is_pending (reply (gw (requests c + j)))"
    using assms(2,3) by (auto simp: less_Suc_eq numeral_2_eq_2)
  from wait_loop_reaches [OF this assms(7)] obtain c' where c':
    "wait_loop gw ?d tx c = wait_loop gw ?d tx c'"
    "clock c' = poll_clock gw 2000 (requests c) (clock c) 2" "requests c' = requests c + 2"
    by blast
  have "wait_loop gw ?d tx c' =
      (Inr rc, (await_request gw c')\<lparr>transaction_cache := (transaction_cache c')(tx \<mapsto> rc)\<rparr>)"
    using assms(4,5,7) c'(2,3) by (intro wait_loop_success) simp_all
  then show ?thesis
    using c' assms(1) by (simp add: wait_for_confirmation_uncached await_request_def)
qed

theorem confirmed_after_three_polls_witness:
  "fst (wait_for_confirmation local_config pending_twice_then_confirmed ''u1'' fresh)
     = Inr confirmed_receipt
   \<and> requests (snd (wait_for_confirmation local_config pending_twice_then_confirmed ''u1'' fresh))
     = 3"
  using confirmed_after_three_polls [of fresh "''u1''" pending_twice_then_confirmed
      confirmed_receipt local_config]
  by (simp add: cached_terminal_def fresh_def is_pending_def get_transaction_receipt_def
        post_receipt_def receipt_of_result_def pending_twice_then_confirmed_def
        confirmed_result_def confirmed_receipt_def local_config_def numeral_2_eq_2)

subsection \<open>Waiting again\<close>

text \<open>
  A wait that returned a receipt returns it again from the cache, in the same state. A
  wait that failed with \<open>TransactionFailed\<close> does not fail again: the next wait for
  the id returns the failed receipt.
\<close>

lemma confirmed_receipt_is_replayed:
  assumes "fst (wait_for_confirmation cfg gw tx c) = Inr rc" and "success rc"
  shows "wait_for_confirmation cfg' gw' tx (snd (wait_for_confirmation cfg gw tx c))
         = (Inr rc, snd (wait_for_confirmation cfg gw tx c))"
proof (cases "cached_terminal c tx")
  case True
  with assms(1) have "wait_for_confirmation cfg gw tx c = (Inr rc, c)"
    "transaction_cache c tx = Some rc"
    by (auto simp: wait_for_confirmation_def cached_terminal_def Let_def
             split: option.splits if_splits)
  with assms(2) show ?thesis by (simp add: wait_for_confirmation_def Let_def)
next
  case False
  let ?d = "clock c + 1000 * confirmation_timeout cfg"
  have loop: "wait_for_confirmation cfg gw tx c = wait_loop gw ?d tx c"
    using False by (rule wait_for_confirmation_uncached)
  with assms(1) wait_loop_caches_outcome [of gw ?d tx c]
  have "transaction_cache (snd (wait_loop gw ?d tx c)) tx = Some rc" by simp
  with assms(2) show ?thesis
    unfolding loop by (simp add: wait_for_confirmation_def Let_def)
qed

lemma failed_receipt_is_returned:
  assumes "fst (wait_for_confirmation cfg gw tx c) = Inl (TransactionFailed m)"
  shows "\<exists>rc. wait_for_confirmation cfg' gw' tx (snd (wait_for_confirmation cfg gw tx c))
               = (Inr rc, snd (wait_for_confirmation cfg gw tx c))
             \<and> \<not> success rc \<and> error rc = Some m"
proof -
  let ?d = "clock c + 1000 * confirmation_timeout cfg"
  have "\<not> cached_terminal c tx"
    using assms
    by (auto simp: wait_for_confirmation_def cached_terminal_def Let_def split: option.splits)
  then have loop: "wait_for_confirmation cfg gw tx c = wait_loop gw ?d tx c"
    by (rule wait_for_confirmation_uncached)
  with assms wait_loop_caches_outcome [of gw ?d tx c] obtain rc where
    "transaction_cache (snd (wait_loop gw ?d tx c)) tx = Some rc"
    "\<not> success rc" "truthy (error rc)" "error rc = Some m" by auto
  then show ?thesis
    unfolding loop by (simp add: wait_for_confirmation_def Let_def)
qed

text \<open>
  Claim C3, at the input that breaks it. The ledger reports the transaction as failed
  (\<open>success\<close> false, \<open>error\<close> ''boom''). The first wait fails with
  \<open>TransactionFailed ''boom''\<close> and caches the receipt; the second wait for the same id
  issues no request, as claimed, but returns the failed receipt as its value instead of
  failing again.
\<close>

theorem failed_then_returned:
  "fst (wait_for_confirmation local_config always_failed ''u1'' fresh)
     = Inl (TransactionFailed ''boom'')
   \<and> fst (wait_for_confirmation local_config always_failed ''u1''
            (snd (wait_for_confirmation local_config always_failed ''u1'' fresh)))
     = Inr failed_receipt
   \<and> requests (snd (wait_for_confirmation local_config always_failed ''u1''
            (snd (wait_for_confirmation local_config always_failed ''u1'' fresh))))
     = requests (snd (wait_for_confirmation local_config always_failed ''u1'' fresh))"
  by (simp add: eval_client always_failed_def failed_result_def failed_receipt_def)

subsection \<open>Running into the deadline\<close>

text \<open>
  Claim C7 bounds the end of a wait by the deadline plus one poll interval. A fetch that
  begins before the deadline is awaited to its end: with a timeout of 1 s and requests
  that take 5 s, the wait ends at 7 s.
\<close>

theorem slow_fetch_counterexample:
  "fst (wait_for_confirmation one_second_config slow_and_down ''u1'' fresh) = Inl Timeout
   \<and> clock (snd (wait_for_confirmation one_second_config slow_and_down ''u1'' fresh)) = 7000
   \<and> \<not> clock (snd (wait_for_confirmation one_second_config slow_and_down ''u1'' fresh))
         \<le> clock fresh + 1000 * confirmation_timeout one_second_config + 2000"
  by (simp add: eval_client one_second_config_def slow_and_down_def)

text \<open>
  Claim C7, as the code has it. With a non-negative timeout, a wait in which every poll is
  pending ends in \<open>Timeout\<close> after at most \<open>\<lceil>timeout / 2\<rceil>\<close> polls (the poll
  interval is 2 s). It ends less than one poll interval plus the duration of its last
  fetch after the deadline; when fetches take no time, at most one poll interval after it.
\<close>

theorem timeout_when_never_terminal:
  assumes "\<not> cached_terminal c tx"
    and "\<forall>n. is_pending (reply (gw n))"
    and "0 \<le> confirmation_timeout cfg"
  shows "fst (wait_for_confirmation cfg gw tx c) = Inl Timeout
       \<and> int (requests (snd (wait_for_confirmation cfg gw tx c)) - requests c)
           \<le> \<lceil>of_int (confirmation_timeout cfg) / (2::rat)\<rceil>
       \<and> clock (snd (wait_for_confirmation cfg gw tx c))
           < clock c + 1000 * confirmation_timeout cfg + 2000
             + int (took (gw (requests (snd (wait_for_confirmation cfg gw tx c)) - 1)))
       \<and> ((\<forall>n. took (gw n) = 0) \<longrightarrow>
            clock (snd (wait_for_confirmation cfg gw tx c))
              \<le> clock c + 1000 * confirmation_timeout cfg + 2000)"
proof -
  let ?T = "confirmation_timeout cfg"
  let ?d = "clock c + 1000 * ?T"
  let ?p = "poll_clock gw 2000 (requests c) (clock c)"
  have loop: "wait_for_confirmation cfg gw tx c = wait_loop gw ?d tx c"
    using assms(1) by (rule wait_for_confirmation_uncached)
  obtain k where k: "\<not> ?p k < ?d"
    using first_unbegun [of 2000 gw "requests c" "clock c" ?d] by auto
  have "\<forall>j<k. is_pending (reply (gw (requests c + j)))"
    using assms(2) by simp
  from wait_loop_expires [OF this k, of tx] obtain m c' where m:
    "wait_loop gw ?d tx c = (Inl Timeout, c')" "clock c' = ?p m" "requests c' = requests c + m"
    "\<not> ?p m < ?d" "\<forall>j<m. ?p j < ?d"
    by blast
  have polls: "int m \<le> \<lceil>of_int ?T / (2::rat)\<rceil>"
  proof (cases m)
    case 0
    then show ?thesis using assms(3) by simp
  next
    case (Suc m')
    then have "?p m' < ?d" using m(5) by simp
    moreover have "clock c + 2000 * int m' \<le> ?p m'" by (rule poll_clock_lower)
    ultimately have "2 * int m' < ?T" by simp
    then have "2 * (of_int (int m') :: rat) < of_int ?T"
      by (metis of_int_less_iff of_int_mult of_int_numeral)
    then have "of_int (int m) - 1 < (of_int ?T :: rat) / 2"
      using Suc by simp
    then show ?thesis by (simp only: le_ceiling_iff)
  qed
  have late: "clock c' < ?d + 2000 + int (took (gw (requests c' - 1)))"
  proof (cases m)
    case 0
    then show ?thesis using m(2,4) assms(3) by simp
  next
    case (Suc m')
    then have "?p m' < ?d" using m(5) by simp
    moreover have "?p m = ?p m' + int (took (gw (requests c + m'))) + 2000"
      unfolding Suc by (rule poll_clock_Suc)
    ultimately show ?thesis using m(2,3) Suc by simp
  qed
  then have "clock c' \<le> ?d + 2000" if "\<forall>n. took (gw n) = 0"
    using that by simp
  with polls late show ?thesis
    unfolding loop m(1) using m(3) by simp
qed

theorem timeout_when_never_terminal_witness:
  "fst (wait_for_confirmation one_second_config never_indexed ''u1'' fresh) = Inl Timeout
   \<and> clock (snd (wait_for_confirmation one_second_config never_indexed ''u1'' fresh)) \<le> 3000"
  using timeout_when_never_terminal [of fresh "''u1''" never_indexed one_second_config]
  by (simp add: cached_terminal_def fresh_def is_pending_def get_transaction_receipt_def
        post_receipt_def never_indexed_def one_second_config_def local_config_def)

subsection \<open>The receipt invariant\<close>

text \<open>
  Claim C9 reads: no receipt has \<open>success\<close> true and an \<open>error\<close>. Nothing checks
  a result object: one with both is built into a receipt with both, and cached.
\<close>

theorem contradictory_receipt_counterexample:
  "get_transaction_receipt (RpcResponse 200 (Some contradictory_result))
     = Inr (Some contradictory_receipt)
   \<and> success contradictory_receipt
   \<and> error contradictory_receipt = Some ''boom''
   \<and> transaction_cache
       (snd (wait_for_confirmation local_config always_contradictory ''u1'' fresh)) ''u1''
     = Some contradictory_receipt"
  by (simp add: eval_client always_contradictory_def contradictory_result_def
        contradictory_receipt_def)

text \<open>
  Claim C9, as the code has it. A receipt is built from a \<open>200\<close> response by copying
  \<open>success\<close> and \<open>error\<close> unchanged, so it keeps the two exclusive exactly when
  the ledger's result object does. If every result object the ledger sends does, and every
  receipt already cached does, then so does every receipt in the cache after a wait.
\<close>

theorem receipts_mirror_the_ledger:
  "(get_transaction_receipt r = Inr (Some rc) \<longrightarrow>
      (\<exists>j. r = RpcResponse 200 (Some j) \<and> j_success j = Some (success rc)
           \<and> j_error j = error rc \<and> (exclusive rc \<longleftrightarrow> consistent j)))
   \<and> ((\<forall>key cached. transaction_cache c key = Some cached \<longrightarrow> exclusive cached)
        \<and> (\<forall>n j. reply (gw n) = RpcResponse 200 (Some j) \<longrightarrow> consistent j)
      \<longrightarrow> (\<forall>key cached.
             transaction_cache (snd (wait_for_confirmation cfg gw tx c)) key = Some cached
             \<longrightarrow> exclusive cached))"
proof (intro conjI impI)
  assume "get_transaction_receipt r = Inr (Some rc)"
  from get_transaction_receipt_fields [OF this]
  show "\<exists>j. r = RpcResponse 200 (Some j) \<and> j_success j = Some (success rc)
           \<and> j_error j = error rc \<and> (exclusive rc \<longleftrightarrow> consistent j)"
    by (auto simp: exclusive_def consistent_def)
next
  assume a: "(\<forall>key cached. transaction_cache c key = Some cached \<longrightarrow> exclusive cached)
        \<and> (\<forall>n j. reply (gw n) = RpcResponse 200 (Some j) \<longrightarrow> consistent j)"
  have fetched: "\<forall>n rc. get_transaction_receipt (reply (gw n)) = Inr (Some rc) \<longrightarrow> exclusive rc"
  proof (intro allI impI)
    fix n rc assume "get_transaction_receipt (reply (gw n)) = Inr (Some rc)"
    from get_transaction_receipt_fields [OF this] a show "exclusive rc"
      by (fastforce simp: exclusive_def consistent_def)
  qed
  have "\<forall>key cached. transaction_cache (snd (wait_loop gw d tx c)) key = Some cached
          \<longrightarrow> exclusive cached" for d
    using a fetched by (intro wait_loop_cache) blast+
  then show "\<forall>key cached.
      transaction_cache (snd (wait_for_confirmation cfg gw tx c)) key = Some cached
      \<longrightarrow> exclusive cached"
    using a by (auto simp: wait_for_confirmation_def Let_def split: option.splits)
qed

theorem receipts_mirror_the_ledger_witness:
  "exclusive confirmed_receipt
   \<and> transaction_cache
       (snd (wait_for_confirmation local_config pending_twice_then_confirmed ''u1'' fresh)) ''u1''
     = Some confirmed_receipt"
proof -
  have "\<forall>n j. reply (pending_twice_then_confirmed n) = RpcResponse 200 (Some j) \<longrightarrow> consistent j"
    by (simp add: pending_twice_then_confirmed_def consistent_def confirmed_result_def)
  moreover have "\<forall>key cached. transaction_cache fresh key = Some cached \<longrightarrow> exclusive cached"
    by (simp add: fresh_def)
  moreover have cached: "transaction_cache
       (snd (wait_for_confirmation local_config pending_twice_then_confirmed ''u1'' fresh)) ''u1''
     = Some confirmed_receipt"
    by (simp add: eval_client pending_twice_then_confirmed_def confirmed_result_def
          confirmed_receipt_def)
  ultimately show ?thesis
    using receipts_mirror_the_ledger [of "RpcResponse 200 (Some confirmed_result)"
        confirmed_receipt fresh pending_twice_then_confirmed local_config "''u1''"]
    by blast
qed

subsection \<open>Polls that yield no receipt\<close>

text \<open>
  After \<open>k\<close> polls of the generic client that carry no receipt the wait is the same loop,
  \<open>k\<close> requests and \<open>k\<close> sleeps later, with the cache untouched, as long as poll
  \<open>k\<close> still begins before the deadline; otherwise it has failed with \<open>Timeout\<close>, at
  or after the deadline.
\<close>

lemma rpc_transient_polls_stay_pending:
  assumes "\<not> cached_terminal c tx"
    and "\<forall>j<k. transient_rpc (reply (gw (requests c + j)))"
  shows "(\<forall>j<k. get_transaction_receipt (reply (gw (requests c + j))) = Inr None)
       \<and> (if poll_clock gw 2000 (requests c) (clock c) k
               < clock c + 1000 * confirmation_timeout cfg
          then wait_for_confirmation cfg gw tx c
               = wait_loop gw (clock c + 1000 * confirmation_timeout cfg) tx
                   (c\<lparr>clock := poll_clock gw 2000 (requests c) (clock c) k,
                      requests := requests c + k\<rparr>)
          else fst (wait_for_confirmation cfg gw tx c) = Inl Timeout
               \<and> clock c + 1000 * confirmation_timeout cfg
                   \<le> clock (snd (wait_for_confirmation cfg gw tx c)))"
proof -
  let ?d = "clock c + 1000 * confirmation_timeout cfg"
  have loop: "wait_for_confirmation cfg gw tx c = wait_loop gw ?d tx c"
    using assms(1) by (rule wait_for_confirmation_uncached)
  have a1: "\<forall>j<k. get_transaction_receipt (reply (gw (requests c + j))) = Inr None"
    using assms(2) by (simp add: transient_rpc_none)
  have a2: "wait_loop gw ?d tx c
            = wait_loop gw ?d tx (c\<lparr>clock := poll_clock gw 2000 (requests c) (clock c) k,
                                     requests := requests c + k\<rparr>)"
    if "poll_clock gw 2000 (requests c) (clock c) k < ?d"
    by (rule polls_reach [where P = transient_rpc and d = ?d])
       (simp_all add: wait_loop_transient assms(2) that)
  have a3: "fst (wait_loop gw ?d tx c) = Inl Timeout \<and> ?d \<le> clock (snd (wait_loop gw ?d tx c))"
    if "\<not> poll_clock gw 2000 (requests c) (clock c) k < ?d"
    using polls_expire [where F = "wait_loop gw ?d tx" and d = ?d and P = transient_rpc
        and i = 2000 and gw = gw and w = c and k = k] assms(2) that
    by (auto simp: wait_loop_transient wait_loop_expired)
  show ?thesis
    unfolding loop using a1 a2 a3 by simp
qed

subsection \<open>Checking a transaction once\<close>

lemma receipt_object_of_result_success:
  "receipt_object_of_result j = Inr rc \<Longrightarrow> m_success j = Some (o_success rc)"
  by (auto simp: receipt_object_of_result_def split: option.splits iso_field.splits)

lemma get_transaction_receipt_any_success:
  "get_transaction_receipt_any r = Inr (Some rc) \<Longrightarrow>
   \<exists>j. r = JsonResponse 200 (Some j) \<and> m_success j = Some (o_success rc)"
  by (auto simp: get_transaction_receipt_any_def post_receipt_any_def
           split: sum.splits json_reply.splits if_splits option.splits
           dest: receipt_object_of_result_success)

text \<open>On a ledger with the declared member types the two readings of a reply agree.\<close>

lemma receipt_object_of_typed_result:
  "receipt_object_of_result (json_of_result j)
     = (case receipt_of_result j of Inl e \<Rightarrow> Inl e | Inr rc \<Rightarrow> Inr (object_of_receipt rc))"
  by (simp add: receipt_object_of_result_def receipt_of_result_def json_of_result_def
        object_of_receipt_def split: option.splits iso_field.splits)

lemma get_transaction_receipt_any_typed:
  "get_transaction_receipt_any (json_of_reply r)
     = (case get_transaction_receipt r of
          Inl e \<Rightarrow> Inl e
        | Inr v \<Rightarrow> Inr (map_option object_of_receipt v))"
  by (simp add: get_transaction_receipt_any_def post_receipt_any_def
        get_transaction_receipt_def post_receipt_def json_of_reply_def
        receipt_object_of_typed_result
        split: rpc_reply.splits option.splits sum.splits)

text \<open>
  Claim C10 reads: \<open>is_transaction_confirmed\<close> always returns a boolean. The ledger
  answers with \<open>success\<close> written as the string ''false'': the receipt is built, and its
  \<open>success\<close> field, that string, is what comes back.
\<close>

theorem string_success_counterexample:
  "is_transaction_confirmed (JsonResponse 200 (Some said_false)) = Inr (JString ''false'')"
  by (simp add: is_transaction_confirmed_def get_transaction_receipt_any_def
        post_receipt_any_def receipt_object_of_result_def said_false_def)

text \<open>
  Claim C10, as the code has it. \<open>is_transaction_confirmed\<close> never lets an exception
  through. When a receipt is fetched it returns the ledger's \<open>success\<close> member as it
  came, unconverted; it returns \<open>True\<close> exactly when a receipt was fetched and that
  member is the boolean true; it returns \<open>False\<close> when there is no receipt or the fetch
  raised. On a ledger whose members have the declared types the result is a boolean:
  true exactly when a receipt was fetched and its \<open>success\<close> field is true.
\<close>

theorem is_transaction_confirmed_returns_success:
  "(\<exists>v. is_transaction_confirmed r = Inr v)
   \<and> (\<forall>rc. get_transaction_receipt_any r = Inr (Some rc) \<longrightarrow>
         is_transaction_confirmed r = Inr (o_success rc)
         \<and> (\<exists>j. r = JsonResponse 200 (Some j) \<and> m_success j = Some (o_success rc)))
   \<and> (is_transaction_confirmed r = Inr (JBool True)
        \<longleftrightarrow> (\<exists>rc. get_transaction_receipt_any r = Inr (Some rc) \<and> o_success rc = JBool True))
   \<and> (get_transaction_receipt_any r = Inr None \<or> (\<exists>e. post_receipt_any r = Inl e)
        \<longrightarrow> is_transaction_confirmed r = Inr (JBool False))
   \<and> is_transaction_confirmed (json_of_reply t)
        = Inr (JBool (\<exists>rc. get_transaction_receipt t = Inr (Some rc) \<and> success rc))"
proof -
  have total: "\<exists>v. is_transaction_confirmed r = Inr v"
    by (simp add: is_transaction_confirmed_def split: sum.splits option.splits)
  have copy: "is_transaction_confirmed r = Inr (o_success rc)
         \<and> (\<exists>j. r = JsonResponse 200 (Some j) \<and> m_success j = Some (o_success rc))"
    if "get_transaction_receipt_any r = Inr (Some rc)" for rc
    using that get_transaction_receipt_any_success [OF that]
    by (simp add: is_transaction_confirmed_def)
  have yes: "is_transaction_confirmed r = Inr (JBool True)
        \<longleftrightarrow> (\<exists>rc. get_transaction_receipt_any r = Inr (Some rc) \<and> o_success rc = JBool True)"
    by (auto simp: is_transaction_confirmed_def get_transaction_receipt_any_def
             split: sum.splits option.splits)
  have no: "is_transaction_confirmed r = Inr (JBool False)"
    if "get_transaction_receipt_any r = Inr None \<or> (\<exists>e. post_receipt_any r = Inl e)"
    using that
    by (auto simp: is_transaction_confirmed_def get_transaction_receipt_any_def)
  have typed: "is_transaction_confirmed (json_of_reply t)
        = Inr (JBool (\<exists>rc. get_transaction_receipt t = Inr (Some rc) \<and> success rc))"
    by (auto simp: is_transaction_confirmed_def get_transaction_receipt_any_typed
          object_of_receipt_def get_transaction_receipt_def split: sum.splits option.splits)
  show ?thesis
    using total copy yes no typed by blast
qed

theorem is_transaction_confirmed_returns_success_witness:
  "post_receipt_any JsonRaised = Inl ClientError
   \<and> is_transaction_confirmed JsonRaised = Inr (JBool False)
   \<and> is_transaction_confirmed (json_of_reply (RpcResponse 200 (Some confirmed_result)))
       = Inr (JBool True)"
proof -
  have "get_transaction_receipt (RpcResponse 200 (Some confirmed_result))
        = Inr (Some confirmed_receipt)"
    by (simp add: get_transaction_receipt_def post_receipt_def receipt_of_result_def
          confirmed_result_def confirmed_receipt_def)
  moreover have "success confirmed_receipt" by (simp add: confirmed_receipt_def)
  ultimately have "\<exists>rc. get_transaction_receipt (RpcResponse 200 (Some confirmed_result))
        = Inr (Some rc) \<and> success rc" by blast
  moreover have "post_receipt_any JsonRaised = Inl ClientError"
    by (simp add: post_receipt_any_def)
  ultimately show ?thesis
    using is_transaction_confirmed_returns_success
      [of JsonRaised "RpcResponse 200 (Some confirmed_result)"]
    by simp
qed

section \<open>The chain clients and the bridge, as shipped\<close>

subsection \<open>An answered request\<close>

text \<open>
  Whatever the ledger answers, the fetch raises \<open>TypeError\<close>: the response is awaited.
  Only a request without a response yields \<open>None\<close>.
\<close>

lemma chat_get_transaction_answered:
  "chat_get_transaction (RestResponse status_code data) = Inl TypeError"
  by (simp add: chat_get_transaction_def await_response_def)

lemma currency_get_transaction_answered:
  "currency_get_transaction (RestResponse status_code data) = Inl TypeError"
  by (simp add: currency_get_transaction_def await_response_def)

lemma get_status_answered: "get_status (RestResponse status_code data) = Inl TypeError"
  by (simp add: get_status_def await_response_def)

lemma unanswered_HTTPError: "unanswered r \<Longrightarrow> r = HTTPError"
  by (cases r) (simp_all add: unanswered_def)

lemma answered: "\<not> unanswered r \<Longrightarrow> \<exists>status_code data. r = RestResponse status_code data"
  by (cases r) (simp_all add: unanswered_def)

subsection \<open>Chat chain\<close>

lemma chat_loop_expired:
  "\<not> clock w < st + mx \<Longrightarrow> chat_wait_loop gw cf mx st txid w = (Inl Timeout, w)"
  by (subst chat_wait_loop.simps) simp

lemma chat_loop_unanswered:
  "clock w < st + mx \<Longrightarrow> unanswered (reply (gw (requests w))) \<Longrightarrow>
   chat_wait_loop gw cf mx st txid w = chat_wait_loop gw cf mx st txid (next_poll gw 1000 w)"
  by (subst chat_wait_loop.simps)
     (auto simp: chat_get_transaction_def next_poll_def Let_def dest: unanswered_HTTPError)

lemma chat_loop_answered:
  "clock w < st + mx \<Longrightarrow> \<not> unanswered (reply (gw (requests w))) \<Longrightarrow>
   chat_wait_loop gw cf mx st txid w = (Inl (Uncaught TypeError), await_request gw w)"
  by (subst chat_wait_loop.simps)
     (auto simp: chat_get_transaction_answered Let_def dest: answered)

lemma chat_loop_outcomes:
  "fst (chat_wait_loop gw cf mx st txid w) = Inl Timeout
   \<or> fst (chat_wait_loop gw cf mx st txid w) = Inl (Uncaught TypeError)"
proof (rule loop_invariant [where F = "chat_wait_loop gw cf mx st txid" and clk = clock
      and d = "st + mx" and nxt = "next_poll gw 1000"
      and P = "\<lambda>s. unanswered (reply (gw (requests s)))" and I = "\<lambda>s. True"])
  fix s :: world
  show "chat_wait_loop gw cf mx st txid s = chat_wait_loop gw cf mx st txid (next_poll gw 1000 s)
        \<and> True \<and> clock s < clock (next_poll gw 1000 s)"
    if "clock s < st + mx" and "unanswered (reply (gw (requests s)))"
    using that
    by (simp add: chat_loop_unanswered) (simp add: next_poll_def sleep_def await_request_def)
  show "fst (chat_wait_loop gw cf mx st txid s) = Inl Timeout
        \<or> fst (chat_wait_loop gw cf mx st txid s) = Inl (Uncaught TypeError)"
    if "\<not> (clock s < st + mx \<and> unanswered (reply (gw (requests s))))"
  proof (cases "clock s < st + mx")
    case False
    then show ?thesis by (simp add: chat_loop_expired)
  next
    case True
    with that show ?thesis by (simp add: chat_loop_answered)
  qed
qed simp

text \<open>The chat-chain wait never returns a transaction.\<close>

lemma chat_wait_never_returns:
  "fst (chat_wait_for_confirmation gw txid cf mx w) \<noteq> Inr tx"
  using chat_loop_outcomes [of gw cf mx "clock w" txid w]
  by (auto simp: chat_wait_for_confirmation_def)

subsection \<open>Currency chain\<close>

lemma currency_loop_expired:
  "\<not> clock w < st + mx \<Longrightarrow> currency_wait_loop gw cf mx st txid w = (Inl Timeout, w)"
  by (subst currency_wait_loop.simps) simp

lemma currency_loop_unanswered:
  "clock w < st + mx \<Longrightarrow> unanswered (reply (gw (requests w))) \<Longrightarrow>
   currency_wait_loop gw cf mx st txid w
     = currency_wait_loop gw cf mx st txid (next_poll gw 1000 w)"
  by (subst currency_wait_loop.simps)
     (auto simp: currency_get_transaction_def next_poll_def Let_def dest: unanswered_HTTPError)

lemma currency_loop_answered:
  "clock w < st + mx \<Longrightarrow> \<not> unanswered (reply (gw (requests w))) \<Longrightarrow>
   currency_wait_loop gw cf mx st txid w = (Inl (Uncaught TypeError), await_request gw w)"
  by (subst currency_wait_loop.simps)
     (auto simp: currency_get_transaction_answered Let_def dest: answered)

lemma currency_loop_outcomes:
  "fst (currency_wait_loop gw cf mx st txid w) = Inl Timeout
   \<or> fst (currency_wait_loop gw cf mx st txid w) = Inl (Uncaught TypeError)"
proof (rule loop_invariant [where F = "currency_wait_loop gw cf mx st txid" and clk = clock
      and d = "st + mx" and nxt = "next_poll gw 1000"
      and P = "\<lambda>s. unanswered (reply (gw (requests s)))" and I = "\<lambda>s. True"])
  fix s :: world
  show "currency_wait_loop gw cf mx st txid s
          = currency_wait_loop gw cf mx st txid (next_poll gw 1000 s)
        \<and> True \<and> clock s < clock (next_poll gw 1000 s)"
    if "clock s < st + mx" and "unanswered (reply (gw (requests s)))"
    using that
    by (simp add: currency_loop_unanswered) (simp add: next_poll_def sleep_def await_request_def)
  show "fst (currency_wait_loop gw cf mx st txid s) = Inl Timeout
        \<or> fst (currency_wait_loop gw cf mx st txid s) = Inl (Uncaught TypeError)"
    if "\<not> (clock s < st + mx \<and> unanswered (reply (gw (requests s))))"
  proof (cases "clock s < st + mx")
    case False
    then show ?thesis by (simp add: currency_loop_expired)
  next
    case True
    with that show ?thesis by (simp add: currency_loop_answered)
  qed
qed simp

lemma currency_wait_never_returns:
  "fst (currency_wait_for_confirmation gw txid cf mx w) \<noteq> Inr tx"
  using currency_loop_outcomes [of gw cf mx "clock w" txid w]
  by (auto simp: currency_wait_for_confirmation_def)

subsection \<open>Bridge\<close>

lemma atomic_loop_expired:
  "\<not> clock w < st + mx \<Longrightarrow> atomic_wait_loop gw mx st bid w = (Inl Timeout, w)"
  by (subst atomic_wait_loop.simps) simp

lemma atomic_loop_unanswered:
  "clock w < st + mx \<Longrightarrow> unanswered (reply (gw (requests w))) \<Longrightarrow>
   atomic_wait_loop gw mx st bid w = atomic_wait_loop gw mx st bid (next_poll gw 1000 w)"
  by (subst atomic_wait_loop.simps)
     (auto simp: get_status_def next_poll_def Let_def dest: unanswered_HTTPError)

lemma atomic_loop_answered:
  "clock w < st + mx \<Longrightarrow> \<not> unanswered (reply (gw (requests w))) \<Longrightarrow>
   atomic_wait_loop gw mx st bid w = (Inl (Uncaught TypeError), await_request gw w)"
  by (subst atomic_wait_loop.simps)
     (auto simp: get_status_answered Let_def dest: answered)

lemma atomic_loop_outcomes:
  "fst (atomic_wait_loop gw mx st bid w) = Inl Timeout
   \<or> fst (atomic_wait_loop gw mx st bid w) = Inl (Uncaught TypeError)"
proof (rule loop_invariant [where F = "atomic_wait_loop gw mx st bid" and clk = clock
      and d = "st + mx" and nxt = "next_poll gw 1000"
      and P = "\<lambda>s. unanswered (reply (gw (requests s)))" and I = "\<lambda>s. True"])
  fix s :: world
  show "atomic_wait_loop gw mx st bid s = atomic_wait_loop gw mx st bid (next_poll gw 1000 s)
        \<and> True \<and> clock s < clock (next_poll gw 1000 s)"
    if "clock s < st + mx" and "unanswered (reply (gw (requests s)))"
    using that
    by (simp add: atomic_loop_unanswered) (simp add: next_poll_def sleep_def await_request_def)
  show "fst (atomic_wait_loop gw mx st bid s) = Inl Timeout
        \<or> fst (atomic_wait_loop gw mx st bid s) = Inl (Uncaught TypeError)"
    if "\<not> (clock s < st + mx \<and> unanswered (reply (gw (requests s))))"
  proof (cases "clock s < st + mx")
    case False
    then show ?thesis by (simp add: atomic_loop_expired)
  next
    case True
    with that show ?thesis by (simp add: atomic_loop_answered)
  qed
qed simp

text \<open>
  The bridge wait never returns a transaction and never fails with \<open>AtomicFailure\<close>.
\<close>

lemma atomic_wait_never_completes:
  "fst (wait_for_atomic_completion gw bid mx w) \<noteq> Inr tx
   \<and> fst (wait_for_atomic_completion gw bid mx w) \<noteq> Inl (AtomicFailure s)"
  using atomic_loop_outcomes [of gw mx "clock w" bid w]
  by (auto simp: wait_for_atomic_completion_def)

text \<open>
  What is left of the waits: while no request is answered they keep polling, and they fail
  with \<open>Timeout\<close> at or after the deadline; the first answered request begun before the
  deadline ends them with the \<open>TypeError\<close>.
\<close>

lemma chat_wait_first_answer:
  assumes "\<forall>j<k. unanswered (reply (gw (requests w + j)))"
  shows "if poll_clock gw 1000 (requests w) (clock w) k < clock w + mx
         then (\<not> unanswered (reply (gw (requests w + k))) \<longrightarrow>
                 fst (chat_wait_for_confirmation gw txid cf mx w) = Inl (Uncaught TypeError)
                 \<and> requests (snd (chat_wait_for_confirmation gw txid cf mx w))
                     = requests w + Suc k)
         else fst (chat_wait_for_confirmation gw txid cf mx w) = Inl Timeout
              \<and> clock w + mx \<le> clock (snd (chat_wait_for_confirmation gw txid cf mx w))"
proof (cases "poll_clock gw 1000 (requests w) (clock w) k < clock w + mx")
  case True
  let ?loop = "chat_wait_loop gw cf mx (clock w) txid"
  let ?w = "w\<lparr>clock := poll_clock gw 1000 (requests w) (clock w) k, requests := requests w + k\<rparr>"
  have "?loop w = ?loop ?w"
    by (rule polls_reach [where P = unanswered and d = "clock w + mx"])
       (simp_all add: chat_loop_unanswered assms True)
  moreover have "?loop ?w = (Inl (Uncaught TypeError), await_request gw ?w)"
    if "\<not> unanswered (reply (gw (requests w + k)))"
    using that True by (intro chat_loop_answered) simp_all
  ultimately show ?thesis
    using True by (simp add: chat_wait_for_confirmation_def await_request_def)
next
  case False
  with polls_expire [where F = "chat_wait_loop gw cf mx (clock w) txid" and d = "clock w + mx"
      and P = unanswered and i = 1000 and gw = gw and w = w and k = k] assms
  show ?thesis
    by (auto simp: chat_loop_unanswered chat_loop_expired chat_wait_for_confirmation_def)
qed

subsection \<open>Returning at the threshold\<close>

text \<open>
  Claim C5, at the input that breaks it. The chat chain answers the first request with
  status 200 and a transaction that has 6 confirmations, the currency chain likewise. Each
  default wait (threshold 6) should return that transaction; each ends on its first poll
  with the \<open>TypeError\<close> of the awaited response.
\<close>

theorem threshold_reached_raises:
  "reply (six_at_once 0) = RestResponse 200 (Record six_deep)
   \<and> cc_confirmations six_deep = 6
   \<and> chat_wait_for_confirmation_default six_at_once ''t1'' at_start
       = (Inl (Uncaught TypeError), \<lparr>clock = 20, requests = 1\<rparr>)
   \<and> reply (paid_at_once 0) = RestResponse 200 (Record paid)
   \<and> cu_confirmations paid = 6
   \<and> currency_wait_for_confirmation_default paid_at_once ''p1'' at_start
       = (Inl (Uncaught TypeError), \<lparr>clock = 20, requests = 1\<rparr>)"
  by (simp add: chat_wait_for_confirmation_default_def chat_wait_for_confirmation_def
        chat_wait_loop.simps chat_get_transaction_def
        currency_wait_for_confirmation_default_def currency_wait_for_confirmation_def
        currency_wait_loop.simps currency_get_transaction_def await_response_def
        await_request_def Let_def at_start_def six_at_once_def six_deep_def paid_at_once_def
        paid_def)

subsection \<open>A transaction the ledger reports as failed\<close>




subsection \<open>Atomic completion\<close>

text \<open>
  Claim C1, at the input that breaks it. The bridge answers the first status request with
  status 200 and a transaction whose status is ''atomic_success''. The default wait should
  return it; it ends on its first poll with the \<open>TypeError\<close> of the awaited response.
  When the bridge answers ''rolled_back'' the wait should fail with \<open>AtomicFailure\<close>; it
  ends the same way.
\<close>

theorem atomic_success_raises:
  "reply (succeeded_at_once 0) = RestResponse 200 (Record staked)
   \<and> x_status staked = ''atomic_success''
   \<and> wait_for_atomic_completion_default succeeded_at_once ''b1'' at_start
       = (Inl (Uncaught TypeError), \<lparr>clock = 30, requests = 1\<rparr>)
   \<and> wait_for_atomic_completion_default rolled_back_at_once ''b1'' at_start
       = (Inl (Uncaught TypeError), \<lparr>clock = 30, requests = 1\<rparr>)"
  by (simp add: wait_for_atomic_completion_default_def wait_for_atomic_completion_def
        atomic_wait_loop.simps get_status_def await_response_def await_request_def Let_def
        at_start_def succeeded_at_once_def rolled_back_at_once_def staked_def)

subsection \<open>A ledger that does not know the transaction\<close>

text \<open>
  Claim C6, at the input that breaks it. The chat chain answers every request with 404. The
  wait should take each such poll as still pending and end with \<open>Timeout\<close> at the
  deadline; it ends on its first poll with the \<open>TypeError\<close> of the awaited response.
\<close>

theorem not_found_aborts:
  "reply (not_found 0) = RestResponse 404 NotJson
   \<and> chat_get_transaction (reply (not_found 0)) = Inl TypeError
   \<and> chat_wait_for_confirmation_default not_found ''t1'' at_start
       = (Inl (Uncaught TypeError), \<lparr>clock = 20, requests = 1\<rparr>)"
  by (simp add: chat_wait_for_confirmation_default_def chat_wait_for_confirmation_def
        chat_wait_loop.simps chat_get_transaction_def await_response_def await_request_def
        Let_def at_start_def not_found_def)

end
